theory Spec2Isabelle
  imports Complex_Main "HOL-Library.AList" "HOL-Library.Char_ord" "HOL-Library.List_Lexorder"
begin

section \<open>Data model\<close>

text \<open>
  The ledger core of \<^verbatim>\<open>advanced_blockchain\<close>: transactions and the transaction pool
  (\<^verbatim>\<open>core/transaction.py\<close>), the Merkle tree (\<^verbatim>\<open>utils/merkle.py\<close>), blocks
  (\<^verbatim>\<open>core/block.py\<close>), the chain (\<^verbatim>\<open>core/blockchain.py\<close>), the storage manager over the
  SQLite engine (\<^verbatim>\<open>storage/storage_manager.py\<close>, \<^verbatim>\<open>storage/sqlite_storage.py\<close>) and the
  replicating store (\<^verbatim>\<open>storage/distributed_storage.py\<close>).

  Python numbers (amounts, fees, balances, timestamps) are rationals: the code only
  compares them, copies them and adds them up; the rounding of floating-point sums is
  not modelled. Objects are records, dictionaries whose items are enumerated are
  association lists, a caught exception is a branch.
\<close>

record Transaction =
  sender :: string
  receiver :: string
  amount :: rat
  fee :: rat
  data :: string
  tx_timestamp :: rat
  tx_nonce :: string
  transaction_id :: string
  signature :: string
  public_key :: string

text \<open>
  What the code takes from libraries outside the repository: \<^verbatim>\<open>hashlib.sha256\<close>
  (hex digest of the UTF-8 bytes), Python's \<^verbatim>\<open>str\<close> of a number, \<^verbatim>\<open>json.dumps\<close> of a
  transaction's dictionary, the ECDSA and address functions behind
  \<^verbatim>\<open>CryptoUtils.verify_signature\<close> and \<^verbatim>\<open>CryptoUtils.public_key_to_address\<close>, and
  Python's \<^verbatim>\<open>int\<close> of a text (\<open>None\<close> where it raises \<^verbatim>\<open>ValueError\<close>). Every
  definition that reaches one of them takes the library as its first argument, and every
  theorem holds for any library.
\<close>

record lib =
  sha256_hex :: "string \<Rightarrow> string"
  str_num :: "rat \<Rightarrow> string"
  json_dumps_tx :: "Transaction \<Rightarrow> string"
  ecdsa_verify :: "string \<Rightarrow> string \<Rightarrow> string \<Rightarrow> bool"
  address_of_key :: "string \<Rightarrow> string"
  py_int :: "string \<Rightarrow> int option"

text \<open>Python's \<^verbatim>\<open>str\<close> of an integer: decimal digits, a minus sign for a negative one.\<close>

fun digits :: "nat \<Rightarrow> nat \<Rightarrow> string" where
  "digits 0 n = []"
| "digits (Suc k) n =
     (if n < 10 then [char_of (48 + n)]
      else digits k (n div 10) @ [char_of (48 + n mod 10)])"

definition str_int :: "int \<Rightarrow> string" where
  "str_int i = (if i < 0 then CHR ''-'' # digits (Suc (nat (- i))) (nat (- i))
                else digits (Suc (nat i)) (nat i))"

text \<open>
  The format \<^verbatim>\<open>{i:010d}\<close> of an integer: the decimal digits filled with zeros after
  the sign to a width of ten characters, and longer when the number needs it.
\<close>

definition zfill :: "nat \<Rightarrow> string \<Rightarrow> string" where
  "zfill width s = replicate (width - length s) CHR ''0'' @ s"

definition format_010d :: "int \<Rightarrow> string" where
  "format_010d i =
     (if i < 0 then CHR ''-'' # zfill 9 (digits (Suc (nat (- i))) (nat (- i)))
      else zfill 10 (digits (Suc (nat i)) (nat i)))"

text \<open>\<^verbatim>\<open>s.startswith(t)\<close>.\<close>

definition startswith :: "string \<Rightarrow> string \<Rightarrow> bool" where
  "startswith s t = (take (length t) s = t)"

subsection \<open>CryptoUtils\<close>

definition hash_data :: "lib \<Rightarrow> string \<Rightarrow> string" where
  "hash_data L s = sha256_hex L s"

definition verify_signature :: "lib \<Rightarrow> string \<Rightarrow> string \<Rightarrow> string \<Rightarrow> bool" where
  "verify_signature L d sig pk = ecdsa_verify L d sig pk"

definition public_key_to_address :: "lib \<Rightarrow> string \<Rightarrow> string" where
  "public_key_to_address L pk = address_of_key L pk"

subsection \<open>Transaction\<close>

definition calculate_transaction_id :: "lib \<Rightarrow> Transaction \<Rightarrow> string" where
  "calculate_transaction_id L tx =
     hash_data L (sender tx @ receiver tx @ str_num L (amount tx) @ str_num L (fee tx)
                  @ data tx @ str_num L (tx_timestamp tx) @ tx_nonce tx)"

text \<open>
  \<^verbatim>\<open>Transaction.__init__\<close>; \<open>now\<close> is what \<^verbatim>\<open>time.time()\<close> returns and \<open>rnd\<close> what
  \<^verbatim>\<open>CryptoUtils.generate_nonce()\<close> returns.
\<close>

definition Transaction_init ::
  "lib \<Rightarrow> rat \<Rightarrow> string \<Rightarrow> string \<Rightarrow> string \<Rightarrow> rat \<Rightarrow> rat \<Rightarrow> string \<Rightarrow> Transaction" where
  "Transaction_init L now rnd s r a f d =
     (let tx = \<lparr>sender = s, receiver = r, amount = a, fee = f, data = d,
                tx_timestamp = now, tx_nonce = rnd, transaction_id = [],
                signature = [], public_key = []\<rparr>
      in tx\<lparr>transaction_id := calculate_transaction_id L tx\<rparr>)"

definition get_signing_data :: "lib \<Rightarrow> Transaction \<Rightarrow> string" where
  "get_signing_data L tx =
     sender tx @ receiver tx @ str_num L (amount tx) @ str_num L (fee tx) @ data tx @ tx_nonce tx"

definition tx_is_valid :: "lib \<Rightarrow> Transaction \<Rightarrow> bool" where
  "tx_is_valid L tx =
     (if amount tx \<le> 0 then False
      else if fee tx < 0 then False
      else if sender tx = [] \<or> receiver tx = [] then False
      else if signature tx \<noteq> [] \<and> public_key tx \<noteq> [] then
        (if \<not> verify_signature L (get_signing_data L tx) (signature tx) (public_key tx) then False
         else if public_key_to_address L (public_key tx) \<noteq> sender tx then False
         else True)
      else True)"

subsection \<open>Merkle tree\<close>

text \<open>One step of a Merkle path: the dictionary with the keys \<^verbatim>\<open>hash\<close> and \<^verbatim>\<open>position\<close>.\<close>

record path_step =
  step_hash :: string
  position :: string

record MerkleTree =
  leaves :: "string list"
  tree_levels :: "string list list"
  root :: "string option"

text \<open>The \<^verbatim>\<open>for i in range(0, len(current_level), 2)\<close> loop, on the padded level.\<close>

fun pair_up :: "lib \<Rightarrow> string list \<Rightarrow> string list" where
  "pair_up L (l # r # rest) = hash_data L (l @ r) # pair_up L rest"
| "pair_up L _ = []"

definition next_level :: "lib \<Rightarrow> string list \<Rightarrow> string list" where
  "next_level L cur =
     pair_up L (if length cur mod 2 = 1 then cur @ [last cur] else cur)"

lemma length_pair_up: "length (pair_up L xs) = length xs div 2"
  by (induction L xs rule: pair_up.induct) auto

lemma length_next_level: "length (next_level L cur) = (length cur + 1) div 2"
  unfolding next_level_def length_pair_up by (auto simp: mod_2_eq_odd elim: oddE)

text \<open>
  The \<^verbatim>\<open>while len(current_level) > 1\<close> loop. The level recorded in
  \<^verbatim>\<open>tree_levels\<close> is the copy taken before the level is padded. The result is the
  recorded levels from \<open>cur\<close> upwards.
\<close>

function build_levels :: "lib \<Rightarrow> string list \<Rightarrow> string list list" where
  "build_levels L cur =
     (if length cur > 1 then cur # build_levels L (next_level L cur) else [cur])"
  by pat_completeness auto
termination
  by (relation "measure (\<lambda>(L, cur). length cur)") (auto simp: length_next_level)

declare build_levels.simps [simp del]

definition MerkleTree_init :: "lib \<Rightarrow> string list \<Rightarrow> MerkleTree" where
  "MerkleTree_init L txs =
     (if txs = [] then \<lparr>leaves = txs, tree_levels = [], root = None\<rparr>
      else let lv = build_levels L (map (hash_data L) txs)
           in \<lparr>leaves = txs, tree_levels = lv,
               root = (case last lv of [] \<Rightarrow> None | h # _ \<Rightarrow> Some h)\<rparr>)"

text \<open>
  \<^verbatim>\<open>get_merkle_path\<close>: the loop over \<^verbatim>\<open>range(len(self.tree_levels) - 1)\<close>, every level but
  the last. The sibling is recorded only when its index is inside the recorded level.
  The index is a natural number (negative indices are not modelled).
\<close>

fun walk_levels :: "string list list \<Rightarrow> nat \<Rightarrow> path_step list" where
  "walk_levels (lvl # nxt # rest) i =
     (let sibling_index = (if i mod 2 = 0 then i + 1 else i - 1);
          pos = (if i mod 2 = 0 then ''right'' else ''left'')
      in (if sibling_index < length lvl
          then [\<lparr>step_hash = lvl ! sibling_index, position = pos\<rparr>] else [])
         @ walk_levels (nxt # rest) (i div 2))"
| "walk_levels _ i = []"

definition get_merkle_path :: "MerkleTree \<Rightarrow> nat \<Rightarrow> path_step list" where
  "get_merkle_path t transaction_index =
     (if transaction_index \<ge> length (leaves t) then []
      else walk_levels (tree_levels t) transaction_index)"

fun follow_path :: "lib \<Rightarrow> string \<Rightarrow> path_step list \<Rightarrow> string" where
  "follow_path L cur [] = cur"
| "follow_path L cur (s # rest) =
     follow_path L
       (if position s = ''right'' then hash_data L (cur @ step_hash s)
        else hash_data L (step_hash s @ cur)) rest"

definition verify_transaction ::
  "lib \<Rightarrow> MerkleTree \<Rightarrow> string \<Rightarrow> nat \<Rightarrow> path_step list \<Rightarrow> bool" where
  "verify_transaction L t tx transaction_index merkle_path =
     (if merkle_path = [] then False
      else Some (follow_path L (hash_data L tx) merkle_path) = root t)"

subsection \<open>Block\<close>

text \<open>
  The attributes of a \<^verbatim>\<open>Block\<close> object. The \<^verbatim>\<open>merkle_tree\<close> attribute is the tree
  built over the transactions when the object is constructed; nothing below reads it.
\<close>

record Block =
  index :: int
  timestamp :: rat
  transactions :: "Transaction list"
  previous_hash :: string
  miner_address :: string
  merkle_root :: string
  nonce :: int
  difficulty :: int
  hash :: string

text \<open>\<^verbatim>\<open>Block._calculate_hash\<close>.\<close>

definition Block_calculate_hash :: "lib \<Rightarrow> Block \<Rightarrow> string" where
  "Block_calculate_hash L b =
     hash_data L (str_int (index b) @ str_num L (timestamp b) @ merkle_root b
                  @ previous_hash b @ str_int (nonce b) @ miner_address b)"

text \<open>\<^verbatim>\<open>Block.__init__\<close>; \<open>now\<close> is the reading of \<^verbatim>\<open>time.time()\<close>.\<close>

definition Block_init ::
  "lib \<Rightarrow> rat \<Rightarrow> int \<Rightarrow> Transaction list \<Rightarrow> string \<Rightarrow> string \<Rightarrow> Block" where
  "Block_init L now i txs prev miner =
     (let mt = MerkleTree_init L (map (json_dumps_tx L) txs);
          b = \<lparr>index = i, timestamp = now, transactions = txs, previous_hash = prev,
               miner_address = miner,
               merkle_root = (case root mt of None \<Rightarrow> [] | Some r \<Rightarrow> r),
               nonce = 0, difficulty = 4, hash = []\<rparr>
      in b\<lparr>hash := Block_calculate_hash L b\<rparr>)"

text \<open>
  \<^verbatim>\<open>Block.is_valid\<close>; its second check, the proof of work against the block's own
  \<^verbatim>\<open>difficulty\<close> field, is \<open>proof_of_work_ok\<close>.
\<close>

definition proof_of_work_ok :: "Block \<Rightarrow> bool" where
  "proof_of_work_ok b = startswith (hash b) (replicate (nat (difficulty b)) CHR ''0'')"

definition Block_is_valid :: "lib \<Rightarrow> Block \<Rightarrow> bool" where
  "Block_is_valid L b =
     (if hash b \<noteq> Block_calculate_hash L b then False
      else if \<not> proof_of_work_ok b then False
      else if \<not> list_all (tx_is_valid L) (transactions b) then False
      else if root (MerkleTree_init L (map (json_dumps_tx L) (transactions b)))
              \<noteq> Some (merkle_root b) then False
      else True)"

text \<open>
  \<^verbatim>\<open>GenesisBlock.__init__\<close>: one transaction from \<^verbatim>\<open>"genesis"\<close>, and the sentinel of 64
  zeros as previous hash.
\<close>

definition GenesisBlock_init :: "lib \<Rightarrow> rat \<Rightarrow> string \<Rightarrow> rat \<Rightarrow> string \<Rightarrow> Block" where
  "GenesisBlock_init L tx_now rnd now miner =
     (let genesis_transaction =
            Transaction_init L tx_now rnd ''genesis'' miner 1000000 0 ''Genesis block transaction'';
          b = Block_init L now 0 [genesis_transaction] (replicate 64 CHR ''0'') miner
      in b\<lparr>hash := Block_calculate_hash L b\<rparr>)"

text \<open>
  Attribute lookup on a \<^verbatim>\<open>Block\<close> for a method that takes no argument and returns the
  hash string. The class defines \<^verbatim>\<open>_calculate_hash\<close>; its other attributes are
  \<^verbatim>\<open>mine_block\<close>, \<^verbatim>\<open>is_valid\<close>, \<^verbatim>\<open>get_transaction_fees\<close>, \<^verbatim>\<open>get_transaction_by_id\<close>,
  \<^verbatim>\<open>verify_transaction_in_block\<close>, \<^verbatim>\<open>to_dict\<close>, \<^verbatim>\<open>to_json\<close>, \<^verbatim>\<open>from_dict\<close>,
  \<^verbatim>\<open>from_json\<close> and the data fields. A name the class does not define raises
  \<^verbatim>\<open>AttributeError\<close>.
\<close>

datatype py_error = AttributeError

definition Block_hash_method :: "lib \<Rightarrow> string \<Rightarrow> py_error + (Block \<Rightarrow> string)" where
  "Block_hash_method L name =
     (if name = ''_calculate_hash'' then Inr (Block_calculate_hash L) else Inl AttributeError)"

subsection \<open>The SQLite engine\<close>

text \<open>
  The tables of \<^verbatim>\<open>SQLiteStorage\<close>, each an association list on its primary key
  (\<^verbatim>\<open>INSERT OR REPLACE\<close> is \<^const>\<open>AList.update\<close>). A stored block is the JSON text
  of \<^verbatim>\<open>Block.to_dict()\<close>, from which \<^verbatim>\<open>Block.from_dict\<close> restores every field of the
  record: the row is the record. Every method of the engine catches the exception of
  its statement and returns \<^verbatim>\<open>False\<close> (a write) or \<^verbatim>\<open>None\<close>, \<^verbatim>\<open>-1\<close>, \<^verbatim>\<open>[]\<close> (a read);
  \<open>failing\<close> says for which statements the engine raises.
\<close>

datatype sql_op =
  OpPut | OpGet | OpStoreBlock | OpGetBlock | OpStoreBlockIndex | OpGetBlockHash
  | OpStoreTransactionIndex | OpStoreAccountBalance | OpGetAccountBalance
  | OpLatestHeight | OpAllAccounts

text \<open>
  The metadata dictionary: the keys the code reads or writes, each present or absent.
  \<^verbatim>\<open>_save_to_storage\<close> writes \<^verbatim>\<open>difficulty\<close>, \<^verbatim>\<open>mining_reward\<close> and \<^verbatim>\<open>last_updated\<close>; the
  default dictionary of \<^verbatim>\<open>get_blockchain_metadata\<close> has \<^verbatim>\<open>created_at\<close> in place of the
  last. A difficulty or reward that is present is a number.
\<close>

record metadata =
  md_difficulty :: "int option"
  md_mining_reward :: "rat option"
  md_created_at :: "rat option"
  md_last_updated :: "rat option"

text \<open>
  What \<^verbatim>\<open>json.loads\<close> returns for a stored text: a dictionary, or a JSON value that is
  not a dictionary (given by its text). A value of the key-value table is JSON text or
  bytes that \<^verbatim>\<open>json.loads\<close> rejects (the empty value among them).
\<close>

datatype json_value = JsonDict metadata | JsonOther string

datatype kv_value = Json json_value | Bytes string

record SQLiteStorage =
  key_value :: "(string \<times> kv_value) list"
  blocks :: "(string \<times> Block) list"
  block_height_index :: "(int \<times> string) list"
  transaction_index :: "(string \<times> string \<times> nat) list"
  account_balances :: "(string \<times> rat) list"
  failing :: "sql_op \<Rightarrow> bool"

definition sqlite_put :: "SQLiteStorage \<Rightarrow> string \<Rightarrow> kv_value \<Rightarrow> bool \<times> SQLiteStorage" where
  "sqlite_put st k v =
     (if failing st OpPut then (False, st)
      else (True, st\<lparr>key_value := AList.update k v (key_value st)\<rparr>))"

definition sqlite_get :: "SQLiteStorage \<Rightarrow> string \<Rightarrow> kv_value option" where
  "sqlite_get st k = (if failing st OpGet then None else map_of (key_value st) k)"

definition sqlite_store_block :: "SQLiteStorage \<Rightarrow> string \<Rightarrow> Block \<Rightarrow> bool \<times> SQLiteStorage" where
  "sqlite_store_block st block_hash block_data =
     (if failing st OpStoreBlock then (False, st)
      else (True, st\<lparr>blocks := AList.update block_hash block_data (blocks st)\<rparr>))"

definition sqlite_get_block :: "SQLiteStorage \<Rightarrow> string \<Rightarrow> Block option" where
  "sqlite_get_block st block_hash =
     (if failing st OpGetBlock then None else map_of (blocks st) block_hash)"

definition sqlite_store_block_index :: "SQLiteStorage \<Rightarrow> int \<Rightarrow> string \<Rightarrow> bool \<times> SQLiteStorage" where
  "sqlite_store_block_index st block_height block_hash =
     (if failing st OpStoreBlockIndex then (False, st)
      else (True, st\<lparr>block_height_index :=
                        AList.update block_height block_hash (block_height_index st)\<rparr>))"

definition sqlite_get_block_hash_by_height :: "SQLiteStorage \<Rightarrow> int \<Rightarrow> string option" where
  "sqlite_get_block_hash_by_height st height =
     (if failing st OpGetBlockHash then None else map_of (block_height_index st) height)"

definition sqlite_store_transaction_index ::
  "SQLiteStorage \<Rightarrow> string \<Rightarrow> string \<Rightarrow> nat \<Rightarrow> bool \<times> SQLiteStorage" where
  "sqlite_store_transaction_index st tx_hash block_hash tx_index =
     (if failing st OpStoreTransactionIndex then (False, st)
      else (True, st\<lparr>transaction_index :=
                        AList.update tx_hash (block_hash, tx_index) (transaction_index st)\<rparr>))"

definition sqlite_store_account_balance ::
  "SQLiteStorage \<Rightarrow> string \<Rightarrow> rat \<Rightarrow> bool \<times> SQLiteStorage" where
  "sqlite_store_account_balance st address balance =
     (if failing st OpStoreAccountBalance then (False, st)
      else (True, st\<lparr>account_balances := AList.update address balance (account_balances st)\<rparr>))"

definition sqlite_get_account_balance :: "SQLiteStorage \<Rightarrow> string \<Rightarrow> rat option" where
  "sqlite_get_account_balance st address =
     (if failing st OpGetAccountBalance then None else map_of (account_balances st) address)"

text \<open>\<^verbatim>\<open>SELECT MAX(height)\<close>, and \<^verbatim>\<open>-1\<close> for the empty table.\<close>

definition sqlite_get_latest_block_height :: "SQLiteStorage \<Rightarrow> int" where
  "sqlite_get_latest_block_height st =
     (if failing st OpLatestHeight then - 1
      else (case map fst (block_height_index st) of
              [] \<Rightarrow> - 1
            | h # hs \<Rightarrow> fold max hs h))"

definition sqlite_get_all_accounts :: "SQLiteStorage \<Rightarrow> string list" where
  "sqlite_get_all_accounts st =
     (if failing st OpAllAccounts then [] else map fst (account_balances st))"

text \<open>A new database: empty tables.\<close>

definition empty_storage :: "(sql_op \<Rightarrow> bool) \<Rightarrow> SQLiteStorage" where
  "empty_storage f =
     \<lparr>key_value = [], blocks = [], block_height_index = [], transaction_index = [],
      account_balances = [], failing = f\<rparr>"

text \<open>The engine that never raises.\<close>

definition no_faults :: "sql_op \<Rightarrow> bool" where
  "no_faults op = False"

subsection \<open>StorageManager\<close>

text \<open>
  The manager over a local engine (\<^verbatim>\<open>self.storage\<close> is \<^verbatim>\<open>self.local_storage\<close> unless
  the configured type is \<^verbatim>\<open>distributed\<close>). \<^verbatim>\<open>store_block\<close>: the block row, then the
  height index, then one index row per transaction whose failure is only logged.
\<close>

fun store_transaction_indices ::
  "SQLiteStorage \<Rightarrow> string \<Rightarrow> nat \<Rightarrow> Transaction list \<Rightarrow> SQLiteStorage" where
  "store_transaction_indices st block_hash tx_index [] = st"
| "store_transaction_indices st block_hash tx_index (tx # txs) =
     store_transaction_indices
       (snd (sqlite_store_transaction_index st (transaction_id tx) block_hash tx_index))
       block_hash (Suc tx_index) txs"

definition store_block :: "SQLiteStorage \<Rightarrow> Block \<Rightarrow> bool \<times> SQLiteStorage" where
  "store_block st b =
     (case sqlite_store_block st (hash b) b of
        (False, st1) \<Rightarrow> (False, st1)
      | (True, st1) \<Rightarrow>
          (case sqlite_store_block_index st1 (index b) (hash b) of
             (False, st2) \<Rightarrow> (False, st2)
           | (True, st2) \<Rightarrow>
               (True, store_transaction_indices st2 (hash b) 0 (transactions b))))"

definition get_block_by_hash :: "SQLiteStorage \<Rightarrow> string \<Rightarrow> Block option" where
  "get_block_by_hash st block_hash = sqlite_get_block st block_hash"

text \<open>\<^verbatim>\<open>if block_hash:\<close> is false for the empty string too.\<close>

definition get_block_by_height :: "SQLiteStorage \<Rightarrow> int \<Rightarrow> Block option" where
  "get_block_by_height st height =
     (case sqlite_get_block_hash_by_height st height of
        None \<Rightarrow> None
      | Some block_hash \<Rightarrow> (if block_hash \<noteq> [] then get_block_by_hash st block_hash else None))"

definition get_latest_block_height :: "SQLiteStorage \<Rightarrow> int" where
  "get_latest_block_height st = sqlite_get_latest_block_height st"

fun store_balances_loop ::
  "SQLiteStorage \<Rightarrow> nat \<Rightarrow> (string \<times> rat) list \<Rightarrow> nat \<times> SQLiteStorage" where
  "store_balances_loop st success_count [] = (success_count, st)"
| "store_balances_loop st success_count (item # rest) =
     store_balances_loop
       (snd (sqlite_store_account_balance st (fst item) (snd item)))
       (if fst (sqlite_store_account_balance st (fst item) (snd item))
        then Suc success_count else success_count)
       rest"

definition store_balances :: "SQLiteStorage \<Rightarrow> (string \<times> rat) list \<Rightarrow> bool \<times> SQLiteStorage" where
  "store_balances st bals =
     (fst (store_balances_loop st 0 bals) = length bals,
      snd (store_balances_loop st 0 bals))"

definition get_balance :: "SQLiteStorage \<Rightarrow> string \<Rightarrow> rat" where
  "get_balance st address =
     (case sqlite_get_account_balance st address of None \<Rightarrow> 0 | Some balance \<Rightarrow> balance)"

text \<open>\<^verbatim>\<open>get_all_balances\<close>: only the accounts whose balance is positive.\<close>

definition get_all_balances :: "SQLiteStorage \<Rightarrow> (string \<times> rat) list" where
  "get_all_balances st =
     fold (\<lambda>address bals.
             if get_balance st address > 0
             then AList.update address (get_balance st address) bals else bals)
          (sqlite_get_all_accounts st) []"

definition store_blockchain_metadata ::
  "SQLiteStorage \<Rightarrow> json_value \<Rightarrow> bool \<times> SQLiteStorage" where
  "store_blockchain_metadata st md = sqlite_put st ''blockchain:metadata'' (Json md)"

text \<open>
  \<^verbatim>\<open>get_blockchain_metadata\<close>: what \<^verbatim>\<open>json.loads\<close> makes of the stored value, or the
  default dictionary (difficulty 4, reward 50.0, the time of the call) when nothing is
  stored, the value is empty or it does not parse.
\<close>

definition get_blockchain_metadata :: "rat \<Rightarrow> SQLiteStorage \<Rightarrow> json_value" where
  "get_blockchain_metadata now st =
     (case sqlite_get st ''blockchain:metadata'' of
        Some (Json j) \<Rightarrow> j
      | _ \<Rightarrow> JsonDict \<lparr>md_difficulty = Some 4, md_mining_reward = Some 50,
                       md_created_at = Some now, md_last_updated = None\<rparr>)"










subsection \<open>Blockchain\<close>

record Blockchain =
  chain_difficulty :: int
  mining_reward :: rat
  chain_pending_transactions :: "Transaction list"
  balances :: "(string \<times> rat) list"
  storage_manager :: SQLiteStorage

text \<open>
  The readings of the clock and of the random source that one call makes: for a
  transaction it constructs, for a block it constructs, for the metadata it writes.
\<close>

record env =
  now_tx :: rat
  rnd_tx :: string
  now_block :: rat
  now_meta :: rat

text \<open>\<^verbatim>\<open>_create_genesis_block\<close>: no transactions, previous hash \<^verbatim>\<open>"0"\<close>, no mining.\<close>

definition genesis_block :: "lib \<Rightarrow> rat \<Rightarrow> Block" where
  "genesis_block L now =
     (let b = (Block_init L now 0 [] ''0'' [])\<lparr>nonce := 0\<rparr>
      in b\<lparr>hash := Block_calculate_hash L b\<rparr>)"

definition create_genesis_block :: "lib \<Rightarrow> env \<Rightarrow> Blockchain \<Rightarrow> Blockchain" where
  "create_genesis_block L E bc =
     bc\<lparr>storage_manager := snd (store_block (storage_manager bc) (genesis_block L (now_block E)))\<rparr>"

text \<open>
  \<^verbatim>\<open>_load_from_storage\<close>: \<^verbatim>\<open>metadata.get(key, default)\<close> keeps the value the chain has
  when the key is absent. On metadata that is not a dictionary \<^verbatim>\<open>metadata.get\<close> raises,
  and the \<^verbatim>\<open>except\<close> clause creates a genesis block with nothing else loaded.
\<close>

definition load_from_storage :: "lib \<Rightarrow> env \<Rightarrow> Blockchain \<Rightarrow> Blockchain" where
  "load_from_storage L E bc =
     (case get_blockchain_metadata (now_meta E) (storage_manager bc) of
        JsonOther t \<Rightarrow> create_genesis_block L E bc
      | JsonDict md \<Rightarrow>
          (let bc1 = bc\<lparr>chain_difficulty :=
                          (case md_difficulty md of None \<Rightarrow> chain_difficulty bc | Some d \<Rightarrow> d),
                        mining_reward :=
                          (case md_mining_reward md of None \<Rightarrow> mining_reward bc | Some r \<Rightarrow> r),
                        balances := get_all_balances (storage_manager bc)\<rparr>
           in if get_latest_block_height (storage_manager bc1) = - 1
              then create_genesis_block L E bc1 else bc1))"

text \<open>\<^verbatim>\<open>Blockchain.__init__\<close> over the storage the configuration names.\<close>

definition Blockchain_init :: "lib \<Rightarrow> env \<Rightarrow> int \<Rightarrow> rat \<Rightarrow> SQLiteStorage \<Rightarrow> Blockchain" where
  "Blockchain_init L E d reward st =
     load_from_storage L E
       \<lparr>chain_difficulty = d, mining_reward = reward, chain_pending_transactions = [],
        balances = [], storage_manager = st\<rparr>"

definition save_to_storage :: "env \<Rightarrow> Blockchain \<Rightarrow> Blockchain" where
  "save_to_storage E bc =
     (let st1 = snd (store_blockchain_metadata (storage_manager bc)
                       (JsonDict \<lparr>md_difficulty = Some (chain_difficulty bc),
                                  md_mining_reward = Some (mining_reward bc),
                                  md_created_at = None,
                                  md_last_updated = Some (now_meta E)\<rparr>));
          st2 = snd (store_balances st1 (balances bc))
      in bc\<lparr>storage_manager := st2\<rparr>)"

definition get_latest_block :: "Blockchain \<Rightarrow> Block option" where
  "get_latest_block bc =
     (let latest_height = get_latest_block_height (storage_manager bc)
      in if latest_height \<ge> 0 then get_block_by_height (storage_manager bc) latest_height
         else None)"

definition validate_transaction :: "lib \<Rightarrow> Blockchain \<Rightarrow> Transaction \<Rightarrow> bool" where
  "validate_transaction L bc tx =
     (if \<not> tx_is_valid L tx then False
      else if get_balance (storage_manager bc) (sender tx) < amount tx + fee tx then False
      else True)"

definition add_transaction :: "lib \<Rightarrow> Blockchain \<Rightarrow> Transaction \<Rightarrow> bool \<times> Blockchain" where
  "add_transaction L bc tx =
     (if validate_transaction L bc tx
      then (True, bc\<lparr>chain_pending_transactions := chain_pending_transactions bc @ [tx]\<rparr>)
      else (False, bc))"

text \<open>\<^verbatim>\<open>if a not in self.balances: self.balances[a] = 0\<close>.\<close>

definition setdefault0 :: "string \<Rightarrow> (string \<times> rat) list \<Rightarrow> (string \<times> rat) list" where
  "setdefault0 a bals = (if map_of bals a = None then AList.update a 0 bals else bals)"

definition balance_in :: "(string \<times> rat) list \<Rightarrow> string \<Rightarrow> rat" where
  "balance_in bals a = (case map_of bals a of None \<Rightarrow> 0 | Some v \<Rightarrow> v)"

definition update_balance_step :: "Transaction \<Rightarrow> (string \<times> rat) list \<Rightarrow> (string \<times> rat) list" where
  "update_balance_step tx bals =
     (let b1 = (if sender tx \<noteq> []
                then (let b0 = setdefault0 (sender tx) bals
                      in AList.update (sender tx) (balance_in b0 (sender tx) - amount tx) b0)
                else bals);
          b2 = setdefault0 (receiver tx) b1
      in AList.update (receiver tx) (balance_in b2 (receiver tx) + amount tx) b2)"

definition update_balances_from_block :: "Block \<Rightarrow> (string \<times> rat) list \<Rightarrow> (string \<times> rat) list" where
  "update_balances_from_block b bals = fold update_balance_step (transactions b) bals"

text \<open>
  \<^verbatim>\<open>_mine_block\<close>: the nonce search has no bound, so it is a partial function; \<open>None\<close>
  is the search that never ends.
\<close>

partial_function (option) mine_loop :: "lib \<Rightarrow> string \<Rightarrow> Block \<Rightarrow> Block option" where
  "mine_loop L target b =
     (if startswith (hash b) target then Some b
      else mine_loop L target
             (b\<lparr>nonce := nonce b + 1,
                hash := Block_calculate_hash L (b\<lparr>nonce := nonce b + 1\<rparr>)\<rparr>))"

declare mine_loop.simps [code]

text \<open>The block after \<open>k\<close> turns of the loop body.\<close>

fun nonce_steps :: "lib \<Rightarrow> nat \<Rightarrow> Block \<Rightarrow> Block" where
  "nonce_steps L 0 b = b"
| "nonce_steps L (Suc k) b =
     nonce_steps L k
       (b\<lparr>nonce := nonce b + 1,
          hash := Block_calculate_hash L (b\<lparr>nonce := nonce b + 1\<rparr>)\<rparr>)"

definition mine_block :: "lib \<Rightarrow> int \<Rightarrow> Block \<Rightarrow> Block option" where
  "mine_block L d b = mine_loop L (replicate (nat d) CHR ''0'') b"

text \<open>The block \<^verbatim>\<open>mine_pending_transactions\<close> constructs before the nonce search.\<close>

definition reward_transaction :: "lib \<Rightarrow> env \<Rightarrow> Blockchain \<Rightarrow> string \<Rightarrow> Transaction" where
  "reward_transaction L E bc mining_reward_address =
     Transaction_init L (now_tx E) (rnd_tx E) [] mining_reward_address (mining_reward bc) 0 []"

definition new_block :: "lib \<Rightarrow> env \<Rightarrow> Blockchain \<Rightarrow> string \<Rightarrow> Block" where
  "new_block L E bc mining_reward_address =
     (let latest_block = get_latest_block bc;
          prev = (case latest_block of None \<Rightarrow> ''0'' | Some lb \<Rightarrow> hash lb);
          new_index = (case latest_block of None \<Rightarrow> 0 | Some lb \<Rightarrow> index lb + 1);
          txs = chain_pending_transactions bc @ [reward_transaction L E bc mining_reward_address]
      in Block_init L (now_block E) new_index txs prev [])"

text \<open>
  \<^verbatim>\<open>mine_pending_transactions\<close>. The outer option is the termination of the nonce
  search, the inner one Python's \<^verbatim>\<open>Optional[Block]\<close>.
\<close>

definition mine_pending_transactions ::
  "lib \<Rightarrow> env \<Rightarrow> Blockchain \<Rightarrow> string \<Rightarrow> (Block option \<times> Blockchain) option" where
  "mine_pending_transactions L E bc mining_reward_address =
     (if chain_pending_transactions bc = [] then Some (None, bc)
      else
        (case mine_block L (chain_difficulty bc) (new_block L E bc mining_reward_address) of
           None \<Rightarrow> None
         | Some nb \<Rightarrow>
             (case store_block (storage_manager bc) nb of
                (True, st1) \<Rightarrow>
                  Some (Some nb,
                        save_to_storage E
                          (bc\<lparr>storage_manager := st1,
                              balances := update_balances_from_block nb (balances bc),
                              chain_pending_transactions := []\<rparr>))
              | (False, st1) \<Rightarrow> Some (None, bc\<lparr>storage_manager := st1\<rparr>))))"

text \<open>
  \<^verbatim>\<open>is_chain_valid\<close>: the loop over \<^verbatim>\<open>range(1, latest_height + 1)\<close>. It calls
  \<^verbatim>\<open>current_block.calculate_hash()\<close>; an exception leaves the loop and is caught by the
  \<^verbatim>\<open>except\<close> clause, which returns \<^verbatim>\<open>False\<close>.
\<close>

fun chain_loop :: "lib \<Rightarrow> SQLiteStorage \<Rightarrow> int list \<Rightarrow> py_error + bool" where
  "chain_loop L st [] = Inr True"
| "chain_loop L st (height # rest) =
     (case (get_block_by_height st height, get_block_by_height st (height - 1)) of
        (Some current_block, Some previous_block) \<Rightarrow>
          (if previous_hash current_block \<noteq> hash previous_block then Inr False
           else (case Block_hash_method L ''calculate_hash'' of
                   Inl e \<Rightarrow> Inl e
                 | Inr m \<Rightarrow>
                     (if hash current_block \<noteq> m current_block then Inr False
                      else chain_loop L st rest)))
      | _ \<Rightarrow> Inr False)"

definition is_chain_valid :: "lib \<Rightarrow> Blockchain \<Rightarrow> bool" where
  "is_chain_valid L bc =
     (case chain_loop L (storage_manager bc)
             [1..get_latest_block_height (storage_manager bc)] of
        Inl e \<Rightarrow> False
      | Inr r \<Rightarrow> r)"

text \<open>
  The validity of a stored chain as the specification words it: every block from
  height 1 on names the hash of the block below it and stores its recomputed hash.
\<close>

definition spec_chain_valid :: "lib \<Rightarrow> SQLiteStorage \<Rightarrow> bool" where
  "spec_chain_valid L st =
     list_all (\<lambda>height.
                 case (get_block_by_height st height, get_block_by_height st (height - 1)) of
                   (Some current_block, Some previous_block) \<Rightarrow>
                     previous_hash current_block = hash previous_block
                     \<and> hash current_block = Block_calculate_hash L current_block
                 | _ \<Rightarrow> False)
              [1..get_latest_block_height st]"

subsection \<open>TransactionPool\<close>

record TransactionPool =
  max_size :: int
  pending_transactions :: "Transaction list"
  transaction_map :: "string \<rightharpoonup> Transaction"

definition TransactionPool_init :: "int \<Rightarrow> TransactionPool" where
  "TransactionPool_init m =
     \<lparr>max_size = m, pending_transactions = [], transaction_map = Map.empty\<rparr>"

text \<open>
  \<^verbatim>\<open>remove_transaction\<close>. \<^verbatim>\<open>list.remove\<close> deletes the first element equal to the
  transaction found in the map.
\<close>

definition remove_transaction :: "TransactionPool \<Rightarrow> string \<Rightarrow> bool \<times> TransactionPool" where
  "remove_transaction pool tid =
     (case transaction_map pool tid of
        Some tx \<Rightarrow>
          (True, pool\<lparr>transaction_map := (transaction_map pool)(tid := None),
                      pending_transactions :=
                        (if tx \<in> set (pending_transactions pool)
                         then remove1 tx (pending_transactions pool)
                         else pending_transactions pool)\<rparr>)
      | None \<Rightarrow> (False, pool))"

text \<open>
  \<^verbatim>\<open>_remove_lowest_fee_transaction\<close>: \<^verbatim>\<open>min(..., key=fee)\<close> is the first transaction of
  least fee, which is what \<^const>\<open>arg_min_list\<close> returns.
\<close>

definition remove_lowest_fee_transaction :: "TransactionPool \<Rightarrow> TransactionPool" where
  "remove_lowest_fee_transaction pool =
     (if pending_transactions pool \<noteq> []
      then snd (remove_transaction pool
                  (transaction_id (arg_min_list fee (pending_transactions pool))))
      else pool)"

text \<open>
  \<^verbatim>\<open>add_transaction\<close>. \<^verbatim>\<open>sort(key=fee, reverse=True)\<close> is stable: transactions of equal
  fee keep their order, as the stable \<^const>\<open>sort_key\<close> on the negated fee does.
\<close>

definition pool_add_transaction ::
  "lib \<Rightarrow> TransactionPool \<Rightarrow> Transaction \<Rightarrow> bool \<times> TransactionPool" where
  "pool_add_transaction L pool tx =
     (if \<not> tx_is_valid L tx then (False, pool)
      else if transaction_map pool (transaction_id tx) \<noteq> None then (False, pool)
      else
        (let p1 = (if int (length (pending_transactions pool)) \<ge> max_size pool
                   then remove_lowest_fee_transaction pool else pool);
             p2 = p1\<lparr>pending_transactions := pending_transactions p1 @ [tx],
                     transaction_map := (transaction_map p1)(transaction_id tx \<mapsto> tx)\<rparr>
         in (True, p2\<lparr>pending_transactions :=
                        sort_key (\<lambda>t. - fee t) (pending_transactions p2)\<rparr>)))"

text \<open>Python's slices \<^verbatim>\<open>xs[:n]\<close> and \<^verbatim>\<open>xs[n:]\<close>; a negative \<open>n\<close> counts from the end.\<close>

definition py_take :: "int \<Rightarrow> 'a list \<Rightarrow> 'a list" where
  "py_take n xs = (if n \<ge> 0 then take (nat n) xs else take (length xs - nat (- n)) xs)"

definition py_drop :: "int \<Rightarrow> 'a list \<Rightarrow> 'a list" where
  "py_drop n xs = (if n \<ge> 0 then drop (nat n) xs else drop (length xs - nat (- n)) xs)"

definition get_transactions_for_block ::
  "TransactionPool \<Rightarrow> int \<Rightarrow> Transaction list \<times> TransactionPool" where
  "get_transactions_for_block pool max_count =
     (let selected = py_take max_count (pending_transactions pool);
          m = fold (\<lambda>tx m. if m (transaction_id tx) \<noteq> None
                            then m(transaction_id tx := None) else m)
                   selected (transaction_map pool)
      in (selected,
          pool\<lparr>transaction_map := m,
               pending_transactions := py_drop max_count (pending_transactions pool)\<rparr>))"

definition pool_clear :: "TransactionPool \<Rightarrow> TransactionPool" where
  "pool_clear pool = pool\<lparr>pending_transactions := [], transaction_map := Map.empty\<rparr>"

text \<open>The operations of the pool, and a run of a sequence of them from a pool.\<close>

datatype pool_op =
  Add Transaction | GetForBlock int | Remove string | Clear

fun apply_pool_op :: "lib \<Rightarrow> TransactionPool \<Rightarrow> pool_op \<Rightarrow> TransactionPool" where
  "apply_pool_op L pool (Add tx) = snd (pool_add_transaction L pool tx)"
| "apply_pool_op L pool (GetForBlock n) = snd (get_transactions_for_block pool n)"
| "apply_pool_op L pool (Remove tid) = snd (remove_transaction pool tid)"
| "apply_pool_op L pool Clear = pool_clear pool"

definition run_pool :: "lib \<Rightarrow> TransactionPool \<Rightarrow> pool_op list \<Rightarrow> TransactionPool" where
  "run_pool L pool ops = foldl (apply_pool_op L) pool ops"

text \<open>
  The invariant of the pool: the keys of the map are the identifiers of the listed
  transactions, no identifier is listed twice, and the map sends the identifier of a
  listed transaction to that transaction.
\<close>

definition pool_inv :: "TransactionPool \<Rightarrow> bool" where
  "pool_inv p =
     (dom (transaction_map p) = transaction_id ` set (pending_transactions p)
      \<and> distinct (map transaction_id (pending_transactions p))
      \<and> list_all (\<lambda>tx. transaction_map p (transaction_id tx) = Some tx) (pending_transactions p))"

subsection \<open>DistributedStorage\<close>

text \<open>
  The answer of a peer to a request: an HTTP status, or the exception \<^verbatim>\<open>requests\<close>
  raises (a timeout, a refused connection). The network is what each peer answers to
  the health probe and to a put, and \<^verbatim>\<open>int(md5(key).hexdigest(), 16)\<close>.
\<close>

datatype response = Status int | Raised

record network =
  md5_int :: "string \<Rightarrow> nat"
  health_response :: "string \<Rightarrow> response"
  put_response :: "string \<Rightarrow> string \<Rightarrow> kv_value \<Rightarrow> response"

record DistributedStorage =
  local_storage :: SQLiteStorage
  peer_nodes :: "string list"
  replication_factor :: int
  consistency_level :: string
  node_health :: "(string \<times> bool) list"

definition DistributedStorage_init ::
  "SQLiteStorage \<Rightarrow> string list \<Rightarrow> int \<Rightarrow> string \<Rightarrow> DistributedStorage" where
  "DistributedStorage_init st peers rf cl =
     \<lparr>local_storage = st, peer_nodes = peers,
      replication_factor = min rf (int (length peers) + 1),
      consistency_level = cl,
      node_health = fold (\<lambda>node h. AList.update node True h) peers []\<rparr>"

definition select_nodes_for_key :: "network \<Rightarrow> DistributedStorage \<Rightarrow> string \<Rightarrow> string list" where
  "select_nodes_for_key N ds key =
     (let available_nodes =
            filter (\<lambda>node. case map_of (node_health ds) node of None \<Rightarrow> False | Some h \<Rightarrow> h)
                   (peer_nodes ds)
      in if available_nodes = [] then []
         else map (\<lambda>i. available_nodes ! ((md5_int N key + i) mod length available_nodes))
                  [0..<nat (replication_factor ds - 1)])"

definition check_node_health ::
  "network \<Rightarrow> DistributedStorage \<Rightarrow> string \<Rightarrow> bool \<times> DistributedStorage" where
  "check_node_health N ds node =
     (let healthy = (health_response N node = Status 200)
      in (healthy, ds\<lparr>node_health := AList.update node healthy (node_health ds)\<rparr>))"

text \<open>One turn of the loop of \<^verbatim>\<open>_replicate_to_peers\<close> for the operation \<^verbatim>\<open>put\<close>.\<close>

definition replicate_step ::
  "network \<Rightarrow> string \<Rightarrow> kv_value \<Rightarrow> string
     \<Rightarrow> (string \<times> bool) list \<times> DistributedStorage \<Rightarrow> (string \<times> bool) list \<times> DistributedStorage" where
  "replicate_step N key v node acc =
     (case acc of (results, ds) \<Rightarrow>
        (case check_node_health N ds node of
           (False, ds1) \<Rightarrow> (AList.update node False results, ds1)
         | (True, ds1) \<Rightarrow>
             (case put_response N node key v of
                Status c \<Rightarrow> (AList.update node (c = 200) results, ds1)
              | Raised \<Rightarrow>
                  (AList.update node False results,
                   ds1\<lparr>node_health := AList.update node False (node_health ds1)\<rparr>))))"

definition replicate_to_peers ::
  "network \<Rightarrow> DistributedStorage \<Rightarrow> string \<Rightarrow> kv_value
     \<Rightarrow> (string \<times> bool) list \<times> DistributedStorage" where
  "replicate_to_peers N ds key v =
     fold (replicate_step N key v) (select_nodes_for_key N ds key) ([], ds)"

text \<open>
  \<^verbatim>\<open>DistributedStorage.put\<close>. Under \<^verbatim>\<open>eventual\<close> the replication runs in a thread of its
  own after the call has returned; the model returns the state the call leaves.
\<close>

definition successful_replications :: "(string \<times> bool) list \<Rightarrow> int" where
  "successful_replications results = int (length (filter snd results))"

definition required_success :: "string \<Rightarrow> (string \<times> bool) list \<Rightarrow> int" where
  "required_success cl results =
     (if cl = ''strong'' then int (length results)
      else if cl = ''quorum'' then int (length results) div 2 + 1
      else 1)"

definition distributed_put ::
  "network \<Rightarrow> DistributedStorage \<Rightarrow> string \<Rightarrow> kv_value \<Rightarrow> bool \<times> DistributedStorage" where
  "distributed_put N ds key v =
     (case sqlite_put (local_storage ds) key v of
        (local_success, st1) \<Rightarrow>
          (let ds1 = ds\<lparr>local_storage := st1\<rparr>
           in if consistency_level ds = ''eventual'' then (local_success, ds1)
              else (case replicate_to_peers N ds1 key v of
                      (replication_results, ds2) \<Rightarrow>
                        (local_success
                         \<and> successful_replications replication_results
                             \<ge> required_success (consistency_level ds) replication_results,
                         ds2))))"

text \<open>
  A peer acknowledges a put when it answers the health probe and the put with status
  200.
\<close>

definition peer_acks :: "network \<Rightarrow> string \<Rightarrow> string \<Rightarrow> kv_value \<Rightarrow> bool" where
  "peer_acks N node key v =
     (health_response N node = Status 200 \<and> put_response N node key v = Status 200)"

subsection \<open>A library instance for running the definitions\<close>

text \<open>
  The theorems hold for every library. To run the definitions on concrete inputs the
  library is instantiated: the digest is four hexadecimal digits of the sum of the bytes,
  a number is printed as its integer part, a transaction as its identifier and its
  addresses, no signature verifies, and \<^verbatim>\<open>int\<close> reads decimal texts.
\<close>

definition demo_digest :: "string \<Rightarrow> nat" where
  "demo_digest s = sum_list (map of_char s)"

definition hex_digit :: "nat \<Rightarrow> char" where
  "hex_digit n = (''0123456789abcdef'' ! (n mod 16))"

definition demo_hash :: "string \<Rightarrow> string" where
  "demo_hash s =
     (let d = demo_digest s
      in [hex_digit d, hex_digit (d div 16), hex_digit (d div 256), hex_digit (d div 4096)])"

text \<open>The reading of a decimal text: digits, or a minus sign and digits.\<close>

definition is_digit :: "char \<Rightarrow> bool" where
  "is_digit c = (48 \<le> (of_char c :: nat) \<and> (of_char c :: nat) \<le> 57)"

definition dec_value :: "string \<Rightarrow> nat" where
  "dec_value s = foldl (\<lambda>acc c. 10 * acc + (of_char c - 48)) 0 s"

definition demo_int :: "string \<Rightarrow> int option" where
  "demo_int s =
     (if s \<noteq> [] \<and> list_all is_digit s then Some (int (dec_value s))
      else if s \<noteq> [] \<and> hd s = CHR ''-'' \<and> tl s \<noteq> [] \<and> list_all is_digit (tl s)
           then Some (- int (dec_value (tl s)))
      else None)"

definition demo_lib :: lib where
  "demo_lib =
     \<lparr>sha256_hex = demo_hash, str_num = (\<lambda>r. str_int \<lfloor>r\<rfloor>),
      json_dumps_tx = (\<lambda>tx. transaction_id tx @ sender tx @ receiver tx),
      ecdsa_verify = (\<lambda>d s k. False), address_of_key = (\<lambda>k. k),
      py_int = demo_int\<rparr>"

text \<open>
  A storage left by an earlier run (difficulty 1, reward 50, an account with funds), the
  chain opened over it, and one transaction admitted by \<^verbatim>\<open>add_transaction\<close>.
\<close>

definition demo_storage :: SQLiteStorage where
  "demo_storage = (empty_storage no_faults)
     \<lparr>key_value := [(''blockchain:metadata'',
          Json (JsonDict \<lparr>md_difficulty = Some 1, md_mining_reward = Some 50,
                           md_created_at = None, md_last_updated = Some 0\<rparr>))],
      account_balances := [(''alice'', 100)]\<rparr>"

definition demo_tx :: Transaction where
  "demo_tx = Transaction_init demo_lib 100 ''r1'' ''alice'' ''bob'' 5 1 []"

definition demo_env :: env where
  "demo_env = \<lparr>now_tx = 1, rnd_tx = ''aa'', now_block = 3, now_meta = 3\<rparr>"

definition demo_chain :: Blockchain where
  "demo_chain = snd (add_transaction demo_lib (Blockchain_init demo_lib demo_env 4 50 demo_storage) demo_tx)"

text \<open>The state the demo chain is in after the pending transaction is mined.\<close>

definition demo_mined :: Blockchain where
  "demo_mined =
     (case mine_pending_transactions demo_lib demo_env demo_chain ''miner'' of
        Some (r, bc) \<Rightarrow> bc
      | None \<Rightarrow> demo_chain)"

text \<open>The same chain over an engine whose height-index statement raises.\<close>

definition demo_chain_faulty :: Blockchain where
  "demo_chain_faulty =
     demo_chain\<lparr>storage_manager :=
                  (storage_manager demo_chain)\<lparr>failing := (\<lambda>op. op = OpStoreBlockIndex)\<rparr>\<rparr>"

text \<open>Transactions that differ in their fee, and a run of pool operations.\<close>

definition fee_tx :: "rat \<Rightarrow> Transaction" where
  "fee_tx f = Transaction_init demo_lib 100 ''r1'' ''alice'' ''bob'' 10 f []"

definition demo_ops :: "pool_op list" where
  "demo_ops = [Add (fee_tx 5), Add (fee_tx 1), Add (fee_tx 9), GetForBlock 1,
               Remove (transaction_id (fee_tx 5)), Add (fee_tx 3), Add (fee_tx 3), Clear,
               Add (fee_tx 1), GetForBlock (- 1)]"

text \<open>
  A network of two peers in which the second one does not answer; the key is routed by
  its length.
\<close>

definition demo_net :: network where
  "demo_net =
     \<lparr>md5_int = length,
      health_response = (\<lambda>node. if node = ''http://node2:5000'' then Raised else Status 200),
      put_response = (\<lambda>node key v. Status 200)\<rparr>"

definition demo_cluster :: DistributedStorage where
  "demo_cluster =
     DistributedStorage_init (empty_storage no_faults)
       [''http://node1:5000'', ''http://node2:5000''] 2 ''quorum''"






section \<open>Properties\<close>

subsection \<open>Merkle proofs\<close>

lemma build_levels_single: "build_levels L [x] = [[x]]"
  by (simp add: build_levels.simps)

lemma build_levels_three:
  "build_levels L [x, y, z] =
     [[x, y, z], [hash_data L (x @ y), hash_data L (z @ z)],
      [hash_data L (hash_data L (x @ y) @ hash_data L (z @ z))]]"
  by (simp add: build_levels.simps next_level_def)

text \<open>
  C2 (Merkle proof round trip, for every non-empty list and every index, the
  one-element list and a padded trailing leaf included). The code does not do this, for
  any hash function. Over a one-element list the path of index 0 is empty and
  \<^verbatim>\<open>verify_transaction\<close> rejects an empty path. Over three leaves the path of the last
  leaf has the single step of the upper level: the duplicate the builder hashed the
  leaf with is not in it, and the verification succeeds exactly when two different
  inputs of the hash collide.
\<close>

theorem merkle_round_trip_odd_and_single:
  "\<not> verify_transaction L (MerkleTree_init L [t]) t 0
        (get_merkle_path (MerkleTree_init L [t]) 0)
   \<and> get_merkle_path (MerkleTree_init L [a, b, c]) 2
       = [\<lparr>step_hash = hash_data L (hash_data L a @ hash_data L b), position = ''left''\<rparr>]
   \<and> verify_transaction L (MerkleTree_init L [a, b, c]) c 2
        (get_merkle_path (MerkleTree_init L [a, b, c]) 2)
     = (hash_data L (hash_data L (hash_data L a @ hash_data L b) @ hash_data L c)
        = hash_data L (hash_data L (hash_data L a @ hash_data L b)
                       @ hash_data L (hash_data L c @ hash_data L c)))"
  by (simp add: verify_transaction_def get_merkle_path_def MerkleTree_init_def
        build_levels_single build_levels_three Let_def)

lemma pair_up_nth:
  "2 * j + 1 < length xs \<Longrightarrow>
     pair_up L xs ! j = hash_data L (xs ! (2 * j) @ xs ! (2 * j + 1))"
proof (induction L xs arbitrary: j rule: pair_up.induct)
  case (1 L l r rest)
  show ?case
  proof (cases j)
    case 0
    then show ?thesis by simp
  next
    case (Suc n)
    with 1 show ?thesis by simp
  qed
qed simp_all

lemma build_levels_nonempty: "build_levels L cur \<noteq> []"
  by (subst build_levels.simps) simp

lemma last_build_levels:
  "length cur > 1 \<Longrightarrow> last (build_levels L cur) = last (build_levels L (next_level L cur))"
  by (subst build_levels.simps) (simp add: build_levels_nonempty)

lemma path_follows_to_root:
  "length cur = 2 ^ k \<Longrightarrow> i < length cur \<Longrightarrow>
     last (build_levels L cur) = [follow_path L (cur ! i) (walk_levels (build_levels L cur) i)]
     \<and> length (walk_levels (build_levels L cur) i) = k"
proof (induction k arbitrary: cur i)
  case 0
  then obtain x where "cur = [x]" by (cases cur) auto
  with 0 show ?case by (simp add: build_levels.simps)
next
  case (Suc k)
  let ?nx = "next_level L cur"
  have "(1::nat) \<le> 2 ^ k" by simp
  then have "(1::nat) < 2 * 2 ^ k" by linarith
  then have len: "length cur > 1" using Suc.prems(1) by simp
  have ev: "length cur mod 2 = 0" using Suc.prems(1) by simp
  have nx: "?nx = pair_up L cur" using ev by (simp add: next_level_def)
  have ln: "length ?nx = 2 ^ k" using Suc.prems(1) by (simp add: nx length_pair_up)
  have i2: "i div 2 < length ?nx" using Suc.prems ln by simp
  obtain l rest where b: "build_levels L ?nx = l # rest"
    using build_levels_nonempty[of L ?nx] by (cases "build_levels L ?nx") auto
  have bl: "build_levels L cur = cur # l # rest"
    using len b by (subst build_levels.simps) simp
  note IH = Suc.IH[OF ln i2]
  have sib: "(if i mod 2 = 0 then i + 1 else i - 1) < length cur"
    using Suc.prems(2) ev by presburger
  have comb: "?nx ! (i div 2)
      = (if i mod 2 = 0 then hash_data L (cur ! i @ cur ! (i + 1))
         else hash_data L (cur ! (i - 1) @ cur ! i))"
  proof (cases "i mod 2 = 0")
    case True
    then have e: "2 * (i div 2) = i" by presburger
    have "2 * (i div 2) + 1 < length cur" using sib True e by simp
    from pair_up_nth[OF this, of L] show ?thesis using True e by (simp add: nx)
  next
    case False
    then have e: "2 * (i div 2) + 1 = i" "2 * (i div 2) = i - 1" by presburger+
    have "2 * (i div 2) + 1 < length cur" using Suc.prems(2) e by simp
    from pair_up_nth[OF this, of L] show ?thesis using False e by (simp add: nx)
  qed
  have w: "walk_levels (build_levels L cur) i
      = \<lparr>step_hash = cur ! (if i mod 2 = 0 then i + 1 else i - 1),
          position = (if i mod 2 = 0 then ''right'' else ''left'')\<rparr>
        # walk_levels (build_levels L ?nx) (i div 2)"
    using sib by (simp add: bl b Let_def)
  have f: "follow_path L (cur ! i) (walk_levels (build_levels L cur) i)
      = follow_path L (?nx ! (i div 2)) (walk_levels (build_levels L ?nx) (i div 2))"
    unfolding w comb by simp
  show ?case
    using IH by (simp add: last_build_levels[OF len] f) (simp add: w)
qed

text \<open>
  What does hold, for any hash function: over a list of \<open>2 ^ (k + 1)\<close> transactions
  no level is padded, and the proof of every index verifies.
\<close>

lemma merkle_round_trip_power_of_two:
  assumes "length T = 2 ^ Suc k" "i < length T"
  shows "verify_transaction L (MerkleTree_init L T) (T ! i) i
           (get_merkle_path (MerkleTree_init L T) i)"
proof -
  have ne: "T \<noteq> []" using assms(2) by auto
  let ?cur = "map (hash_data L) T"
  have l: "length ?cur = 2 ^ Suc k" using assms(1) by (simp only: length_map)
  have i: "i < length ?cur" using assms(2) by (simp only: length_map)
  note p = path_follows_to_root[OF l i, of L]
  then have "walk_levels (build_levels L ?cur) i \<noteq> []" by auto
  then show ?thesis
    using p ne assms(2)
    by (simp add: verify_transaction_def get_merkle_path_def MerkleTree_init_def Let_def)
qed

subsection \<open>The nonce search\<close>

lemma nonce_steps_fields:
  "transactions (nonce_steps L k b) = transactions b"
  "difficulty (nonce_steps L k b) = difficulty b"
  "index (nonce_steps L k b) = index b"
  "previous_hash (nonce_steps L k b) = previous_hash b"
  by (induction k arbitrary: b) auto

lemma mine_loop_result:
  assumes "mine_loop L t b = Some nb"
  shows "startswith (hash nb) t \<and> (\<exists>j. nb = nonce_steps L j b)"
  using assms
proof (induction rule: mine_loop.raw_induct[rotated 1, consumes 1])
  case (1 mine_loop L t b nb)
  show ?case
  proof (cases "startswith (hash b) t")
    case True
    with 1(2) have "nb = b" by simp
    then have "\<exists>j. nb = nonce_steps L j b" by (intro exI[of _ 0]) simp
    then show ?thesis using True \<open>nb = b\<close> by simp
  next
    case False
    with 1(2) have "mine_loop L t (b\<lparr>nonce := nonce b + 1,
                hash := Block_calculate_hash L (b\<lparr>nonce := nonce b + 1\<rparr>)\<rparr>) = Some nb" by simp
    from 1(1)[OF this] obtain j where "startswith (hash nb) t"
      "nb = nonce_steps L (Suc j) b" by auto
    then show ?thesis by (intro conjI exI[of _ "Suc j"])
  qed
qed




lemma mine_loop_terminates:
  "startswith (hash (nonce_steps L k b)) t \<Longrightarrow> \<exists>j\<le>k. mine_loop L t b = Some (nonce_steps L j b)"
proof (induction k arbitrary: b)
  case 0
  then show ?case by (subst mine_loop.simps) simp
next
  case (Suc k)
  show ?case
  proof (cases "startswith (hash b) t")
    case True
    then have "mine_loop L t b = Some (nonce_steps L 0 b)" by (subst mine_loop.simps) simp
    then show ?thesis by blast
  next
    case False
    let ?b' = "b\<lparr>nonce := nonce b + 1, hash := Block_calculate_hash L (b\<lparr>nonce := nonce b + 1\<rparr>)\<rparr>"
    from Suc.prems have "startswith (hash (nonce_steps L k ?b')) t" by simp
    from Suc.IH[OF this] obtain j where j: "j \<le> k" "mine_loop L t ?b' = Some (nonce_steps L j ?b')" by blast
    have "mine_loop L t b = mine_loop L t ?b'" using False by (subst mine_loop.simps) simp
    with j have "Suc j \<le> Suc k \<and> mine_loop L t b = Some (nonce_steps L (Suc j) b)" by simp
    then show ?thesis by blast
  qed
qed

subsection \<open>What each write leaves unchanged\<close>

lemma sqlite_put_frame [simp]:
  "blocks (snd (sqlite_put st k v)) = blocks st"
  "block_height_index (snd (sqlite_put st k v)) = block_height_index st"
  "transaction_index (snd (sqlite_put st k v)) = transaction_index st"
  "account_balances (snd (sqlite_put st k v)) = account_balances st"
  "failing (snd (sqlite_put st k v)) = failing st"
  by (simp_all add: sqlite_put_def)

lemma sqlite_store_transaction_index_frame [simp]:
  "blocks (snd (sqlite_store_transaction_index st t h i)) = blocks st"
  "block_height_index (snd (sqlite_store_transaction_index st t h i)) = block_height_index st"
  "key_value (snd (sqlite_store_transaction_index st t h i)) = key_value st"
  "account_balances (snd (sqlite_store_transaction_index st t h i)) = account_balances st"
  "failing (snd (sqlite_store_transaction_index st t h i)) = failing st"
  by (simp_all add: sqlite_store_transaction_index_def)

lemma store_transaction_indices_frame [simp]:
  "blocks (store_transaction_indices st h i txs) = blocks st"
  "block_height_index (store_transaction_indices st h i txs) = block_height_index st"
  "key_value (store_transaction_indices st h i txs) = key_value st"
  "account_balances (store_transaction_indices st h i txs) = account_balances st"
  "failing (store_transaction_indices st h i txs) = failing st"
  by (induction txs arbitrary: st i) simp_all

lemma sqlite_store_account_balance_frame [simp]:
  "blocks (snd (sqlite_store_account_balance st a v)) = blocks st"
  "block_height_index (snd (sqlite_store_account_balance st a v)) = block_height_index st"
  "key_value (snd (sqlite_store_account_balance st a v)) = key_value st"
  "transaction_index (snd (sqlite_store_account_balance st a v)) = transaction_index st"
  "failing (snd (sqlite_store_account_balance st a v)) = failing st"
  by (simp_all add: sqlite_store_account_balance_def)

lemma store_balances_loop_frame [simp]:
  "blocks (snd (store_balances_loop st n bals)) = blocks st"
  "block_height_index (snd (store_balances_loop st n bals)) = block_height_index st"
  "key_value (snd (store_balances_loop st n bals)) = key_value st"
  "transaction_index (snd (store_balances_loop st n bals)) = transaction_index st"
  "failing (snd (store_balances_loop st n bals)) = failing st"
  by (induction bals arbitrary: st n) simp_all

lemma store_balances_frame [simp]:
  "blocks (snd (store_balances st bals)) = blocks st"
  "block_height_index (snd (store_balances st bals)) = block_height_index st"
  "key_value (snd (store_balances st bals)) = key_value st"
  "transaction_index (snd (store_balances st bals)) = transaction_index st"
  "failing (snd (store_balances st bals)) = failing st"
  by (simp_all add: store_balances_def)

lemma store_block_frame [simp]:
  "key_value (snd (store_block st b)) = key_value st"
  "account_balances (snd (store_block st b)) = account_balances st"
  "failing (snd (store_block st b)) = failing st"
  by (simp_all add: store_block_def sqlite_store_block_def sqlite_store_block_index_def
        split: prod.splits bool.splits)

lemma store_block_success:
  assumes "fst (store_block st b)"
  shows "blocks (snd (store_block st b)) = AList.update (hash b) b (blocks st)"
    and "block_height_index (snd (store_block st b))
           = AList.update (index b) (hash b) (block_height_index st)"
  using assms
  by (auto simp: store_block_def sqlite_store_block_def sqlite_store_block_index_def
        split: prod.splits bool.splits if_splits)



lemma store_block_failure:
  assumes "\<not> fst (store_block st b)"
  shows "block_height_index (snd (store_block st b)) = block_height_index st"
  using assms
  by (auto simp: store_block_def sqlite_store_block_def sqlite_store_block_index_def
        split: prod.splits bool.splits if_splits)

subsection \<open>Chain validation and the genesis block\<close>

lemma chain_loop_Cons: "chain_loop L st (h # rest) \<noteq> Inr True"
  by (auto simp: Block_hash_method_def split: option.splits)

lemma is_chain_valid_iff:
  "is_chain_valid L bc = (get_latest_block_height (storage_manager bc) \<le> 0)"
proof (cases "get_latest_block_height (storage_manager bc) \<le> 0")
  case True
  then have "[1..get_latest_block_height (storage_manager bc)] = []" by simp
  then show ?thesis using True by (simp add: is_chain_valid_def)
next
  case False
  then have "[1..get_latest_block_height (storage_manager bc)]
      = 1 # [2..get_latest_block_height (storage_manager bc)]"
    by (simp add: upto_rec1)
  then show ?thesis
    using False chain_loop_Cons[of L "storage_manager bc" 1
        "[2..get_latest_block_height (storage_manager bc)]"]
    by (auto simp: is_chain_valid_def split: sum.splits)
qed

lemma demo_mined_facts:
  "get_latest_block_height (storage_manager demo_mined) = 1
   \<and> spec_chain_valid demo_lib (storage_manager demo_mined)"
  by code_simp

text \<open>
  C1 (\<^verbatim>\<open>is_chain_valid\<close> is true exactly when every block from height 1 on links to
  its predecessor and stores its recomputed hash). The code does not do this: the loop
  calls \<^verbatim>\<open>calculate_hash\<close>, which \<^verbatim>\<open>Block\<close> does not define (its method is
  \<^verbatim>\<open>_calculate_hash\<close>), so every turn of the loop that passes the linkage test ends in
  the caught \<^verbatim>\<open>AttributeError\<close>. What the code computes: the chain is reported valid
  exactly when the latest height is at most 0, whatever the blocks hold. The demo chain
  after mining has two blocks, linked and hashed as the specification asks, and is
  reported invalid.
\<close>

theorem is_chain_valid_only_genesis:
  "is_chain_valid L bc = (get_latest_block_height (storage_manager bc) \<le> 0)
   \<and> get_latest_block_height (storage_manager demo_mined) = 1
   \<and> spec_chain_valid demo_lib (storage_manager demo_mined)
   \<and> \<not> is_chain_valid demo_lib demo_mined"
  using is_chain_valid_iff[of L bc] is_chain_valid_iff[of demo_lib demo_mined] demo_mined_facts
  by simp

lemma genesis_block_fields:
  "previous_hash (genesis_block L now) = ''0''"
  "index (genesis_block L now) = 0"
  "transactions (genesis_block L now) = []"
  "nonce (genesis_block L now) = 0"
  "difficulty (genesis_block L now) = 4"
  "hash (genesis_block L now) = Block_calculate_hash L (genesis_block L now)"
  by (simp_all add: genesis_block_def Block_init_def Let_def Block_calculate_hash_def)

lemma init_empty_storage:
  "storage_manager (Blockchain_init L E d r (empty_storage no_faults))
     = (empty_storage no_faults)
         \<lparr>blocks := [(hash (genesis_block L (now_block E)), genesis_block L (now_block E))],
          block_height_index := [(0, hash (genesis_block L (now_block E)))]\<rparr>"
  by (simp add: Blockchain_init_def load_from_storage_def Let_def get_blockchain_metadata_def
      sqlite_get_def empty_storage_def no_faults_def get_all_balances_def
      sqlite_get_all_accounts_def get_latest_block_height_def
      sqlite_get_latest_block_height_def create_genesis_block_def store_block_def
      sqlite_store_block_def sqlite_store_block_index_def genesis_block_fields)

text \<open>
  C8, as amended. A chain initialised over an empty storage stores one block at height
  0: no transactions, nonce 0, previous hash the one-character sentinel \<^verbatim>\<open>"0"\<close>, its
  hash the hash of its fields whatever that is (no nonce search), and the chain is
  reported valid. The sentinel of 64 zeros is the one of the \<^verbatim>\<open>GenesisBlock\<close> class,
  which the chain does not construct.
\<close>

theorem genesis_block_of_chain:
  "storage_manager (Blockchain_init L E d r (empty_storage no_faults))
     = (empty_storage no_faults)
         \<lparr>blocks := [(hash (genesis_block L (now_block E)), genesis_block L (now_block E))],
          block_height_index := [(0, hash (genesis_block L (now_block E)))]\<rparr>
   \<and> previous_hash (genesis_block L (now_block E)) = ''0''
   \<and> index (genesis_block L (now_block E)) = 0
   \<and> transactions (genesis_block L (now_block E)) = []
   \<and> nonce (genesis_block L (now_block E)) = 0
   \<and> hash (genesis_block L (now_block E)) = Block_calculate_hash L (genesis_block L (now_block E))
   \<and> is_chain_valid L (Blockchain_init L E d r (empty_storage no_faults))
   \<and> previous_hash (GenesisBlock_init L t0 rnd t1 miner) = replicate 64 CHR ''0''"
proof -
  have "get_latest_block_height (storage_manager (Blockchain_init L E d r (empty_storage no_faults))) = 0"
    unfolding init_empty_storage
    by (simp add: get_latest_block_height_def
        sqlite_get_latest_block_height_def empty_storage_def no_faults_def)
  then have "is_chain_valid L (Blockchain_init L E d r (empty_storage no_faults))"
    by (simp add: is_chain_valid_def)
  moreover have "previous_hash (GenesisBlock_init L t0 rnd t1 miner) = replicate 64 CHR ''0''"
    by (simp add: GenesisBlock_init_def Block_init_def Let_def)
  ultimately show ?thesis
    using init_empty_storage[of L E d r] genesis_block_fields[of L "now_block E"] by simp
qed

lemma sentinel_differs: "''0'' \<noteq> replicate 64 CHR ''0''"
proof
  assume "''0'' = replicate 64 CHR ''0''"
  then have "length ''0'' = length (replicate 64 CHR ''0'')" by (rule arg_cong)
  then show False by simp
qed

text \<open>
  C8 as stated fails: the previous hash of the stored genesis block is \<^verbatim>\<open>"0"\<close>, not the
  string of 64 zeros.
\<close>

theorem genesis_sentinel_counterexample:
  "map_option previous_hash
     (get_block_by_height
        (storage_manager (Blockchain_init demo_lib demo_env 4 50 (empty_storage no_faults))) 0)
     = Some ''0''
   \<and> ''0'' \<noteq> replicate 64 CHR ''0''"
  unfolding init_empty_storage
  by (simp add: get_block_by_height_def sqlite_get_block_hash_by_height_def
      get_block_by_hash_def sqlite_get_block_def empty_storage_def no_faults_def
      genesis_block_fields Block_calculate_hash_def demo_lib_def hash_data_def demo_hash_def Let_def
      sentinel_differs)

subsection \<open>Mining the pending transactions\<close>

lemma new_block_fields:
  "transactions (new_block L E bc a) = chain_pending_transactions bc @ [reward_transaction L E bc a]"
  "difficulty (new_block L E bc a) = 4"
  by (simp_all add: new_block_def Block_init_def Let_def)


lemma mine_pending_Some:
  assumes "mine_pending_transactions L E bc a = Some (Some nb, bc')"
  shows "chain_pending_transactions bc \<noteq> []"
    and "mine_block L (chain_difficulty bc) (new_block L E bc a) = Some nb"
    and "fst (store_block (storage_manager bc) nb)"
    and "bc' = save_to_storage E
                 (bc\<lparr>storage_manager := snd (store_block (storage_manager bc) nb),
                     balances := update_balances_from_block nb (balances bc),
                     chain_pending_transactions := []\<rparr>)"
  using assms
  by (auto simp: mine_pending_transactions_def split: if_splits option.splits prod.splits bool.splits)

lemma save_to_storage_fields [simp]:
  "chain_pending_transactions (save_to_storage E bc) = chain_pending_transactions bc"
  "balances (save_to_storage E bc) = balances bc"
  "chain_difficulty (save_to_storage E bc) = chain_difficulty bc"
  "blocks (storage_manager (save_to_storage E bc)) = blocks (storage_manager bc)"
  "block_height_index (storage_manager (save_to_storage E bc)) = block_height_index (storage_manager bc)"
  by (simp_all add: save_to_storage_def Let_def store_blockchain_metadata_def)









lemma demo_chain_difficulty: "chain_difficulty demo_chain = 1"
  by code_simp



lemma store_block_unavailable:
  "failing st OpStoreBlock \<or> failing st OpStoreBlockIndex \<Longrightarrow> \<not> fst (store_block st b)"
  by (auto simp: store_block_def sqlite_store_block_def sqlite_store_block_index_def)

lemma store_block_latest_height:
  "\<not> fst (store_block st b) \<Longrightarrow>
     get_latest_block_height (snd (store_block st b)) = get_latest_block_height st"
  by (simp add: get_latest_block_height_def sqlite_get_latest_block_height_def
      store_block_failure)

text \<open>
  C7 (a failed \<^verbatim>\<open>store_block\<close> inside \<^verbatim>\<open>mine_pending_transactions\<close>). When the
  nonce search has produced the block and \<^verbatim>\<open>store_block\<close> returns \<^verbatim>\<open>False\<close> for it,
  the call returns \<^verbatim>\<open>None\<close>; the pending list, the balances in memory, the stored
  balances, the key-value table and the latest height are what they were.
\<close>

theorem store_block_failure_keeps_chain_state:
  assumes "chain_pending_transactions bc \<noteq> []"
    and "mine_block L (chain_difficulty bc) (new_block L E bc a) = Some nb"
    and "\<not> fst (store_block (storage_manager bc) nb)"
  shows "\<exists>bc'. mine_pending_transactions L E bc a = Some (None, bc')
      \<and> chain_pending_transactions bc' = chain_pending_transactions bc
      \<and> balances bc' = balances bc
      \<and> account_balances (storage_manager bc') = account_balances (storage_manager bc)
      \<and> get_balance (storage_manager bc') addr = get_balance (storage_manager bc) addr
      \<and> key_value (storage_manager bc') = key_value (storage_manager bc)
      \<and> get_latest_block_height (storage_manager bc')
          = get_latest_block_height (storage_manager bc)"
proof -
  let ?st = "snd (store_block (storage_manager bc) nb)"
  have "mine_pending_transactions L E bc a = Some (None, bc\<lparr>storage_manager := ?st\<rparr>)"
    using assms by (auto simp: mine_pending_transactions_def split: prod.splits bool.splits)
  moreover have "get_balance ?st addr = get_balance (storage_manager bc) addr"
    by (simp add: get_balance_def sqlite_get_account_balance_def)
  moreover have "get_latest_block_height ?st = get_latest_block_height (storage_manager bc)"
    using assms(3) by (rule store_block_latest_height)
  ultimately show ?thesis by simp
qed

lemma demo_faulty_hyps:
  "chain_pending_transactions demo_chain_faulty \<noteq> []
   \<and> startswith (hash (nonce_steps demo_lib 2 (new_block demo_lib demo_env demo_chain_faulty ''miner'')))
                 (replicate (nat (chain_difficulty demo_chain_faulty)) CHR ''0'')
   \<and> failing (storage_manager demo_chain_faulty) OpStoreBlockIndex
   \<and> chain_pending_transactions demo_chain_faulty = [demo_tx]
   \<and> balances demo_chain_faulty = [(''alice'', 100)]
   \<and> get_balance (storage_manager demo_chain_faulty) ''alice'' = 100
   \<and> get_latest_block_height (storage_manager demo_chain_faulty) = 0"
  by code_simp

text \<open>The demo chain over the engine whose height-index statement raises.\<close>

theorem store_block_failure_keeps_chain_state_witness:
  "\<exists>bc'. mine_pending_transactions demo_lib demo_env demo_chain_faulty ''miner'' = Some (None, bc')
      \<and> chain_pending_transactions bc' = [demo_tx]
      \<and> balances bc' = [(''alice'', 100)]
      \<and> get_balance (storage_manager bc') ''alice'' = 100
      \<and> get_latest_block_height (storage_manager bc') = 0"
proof -
  obtain j where j: "mine_block demo_lib (chain_difficulty demo_chain_faulty)
       (new_block demo_lib demo_env demo_chain_faulty ''miner'')
     = Some (nonce_steps demo_lib j (new_block demo_lib demo_env demo_chain_faulty ''miner''))"
    using mine_loop_terminates demo_faulty_hyps unfolding mine_block_def by blast
  have f: "\<not> fst (store_block (storage_manager demo_chain_faulty)
              (nonce_steps demo_lib j (new_block demo_lib demo_env demo_chain_faulty ''miner'')))"
    using demo_faulty_hyps by (simp add: store_block_unavailable)
  show ?thesis
    using store_block_failure_keeps_chain_state[OF _ j f, of "''alice''"] demo_faulty_hyps
    by auto
qed

text \<open>
  C9 (the \<^verbatim>\<open>difficulty\<close> field of a mined block). A block returned by
  \<^verbatim>\<open>mine_pending_transactions\<close> has the constructor's \<^verbatim>\<open>difficulty = 4\<close> and is stored
  so, whatever the difficulty of the chain; its hash starts with as many zeros as the
  chain's difficulty asks, while the proof-of-work check of \<^verbatim>\<open>Block.is_valid\<close> asks for
  four: a mined hash with fewer than four leading zeros fails \<^verbatim>\<open>is_valid\<close>.
\<close>

theorem mined_block_keeps_default_difficulty:
  assumes "mine_pending_transactions L E bc a = Some (Some nb, bc')"
  shows "difficulty nb = 4
     \<and> map_of (blocks (storage_manager bc')) (hash nb) = Some nb
     \<and> startswith (hash nb) (replicate (nat (chain_difficulty bc)) CHR ''0'')
     \<and> proof_of_work_ok nb = startswith (hash nb) ''0000''
     \<and> (\<not> startswith (hash nb) ''0000'' \<longrightarrow> \<not> Block_is_valid L nb)"
proof -
  note facts = mine_pending_Some[OF assms]
  from facts(2) obtain j where j: "startswith (hash nb) (replicate (nat (chain_difficulty bc)) CHR ''0'')"
    "nb = nonce_steps L j (new_block L E bc a)"
    using mine_loop_result unfolding mine_block_def by blast
  have d: "difficulty nb = 4" using j(2) by (simp add: nonce_steps_fields new_block_fields)
  have p: "proof_of_work_ok nb = startswith (hash nb) ''0000''"
    by (simp add: proof_of_work_ok_def d numeral_eq_Suc)
  have "map_of (blocks (storage_manager bc')) (hash nb) = Some nb"
    using facts(4) store_block_success(1)[OF facts(3)] by (simp add: update_conv')
  moreover have "\<not> startswith (hash nb) ''0000'' \<longrightarrow> \<not> Block_is_valid L nb"
    using p by (simp add: Block_is_valid_def)
  ultimately show ?thesis using d j(1) p by simp
qed

lemma demo_mined_hash:
  "(case mine_pending_transactions demo_lib demo_env demo_chain ''miner'' of
      Some (Some nb, bc') \<Rightarrow> hash nb = ''0820'' \<and> nonce nb = 2
    | _ \<Rightarrow> False)"
  by code_simp

text \<open>
  The demo chain has difficulty 1: the mined hash has one leading zero and the block
  fails the proof-of-work check.
\<close>

theorem mined_block_keeps_default_difficulty_witness:
  "chain_difficulty demo_chain = 1
   \<and> (\<exists>nb bc'. mine_pending_transactions demo_lib demo_env demo_chain ''miner'' = Some (Some nb, bc')
         \<and> difficulty nb = 4 \<and> nonce nb = 2 \<and> hash nb = ''0820''
         \<and> startswith (hash nb) ''0''
         \<and> \<not> proof_of_work_ok nb \<and> \<not> Block_is_valid demo_lib nb)"
proof -
  obtain nb bc' where m: "mine_pending_transactions demo_lib demo_env demo_chain ''miner'' = Some (Some nb, bc')"
    and h: "hash nb = ''0820''" "nonce nb = 2"
    using demo_mined_hash by (auto split: option.splits prod.splits)
  have z: "\<not> startswith (hash nb) ''0000''" "startswith (hash nb) ''0''"
    using h by (simp_all add: startswith_def)
  show ?thesis
    using mined_block_keeps_default_difficulty[OF m] m h z demo_chain_difficulty by auto
qed

subsection \<open>The transaction pool\<close>

lemma pool_inv_init: "pool_inv (TransactionPool_init m)"
  by (simp add: pool_inv_def TransactionPool_init_def)

lemma pool_inv_lookup:
  assumes "pool_inv p" "transaction_map p tid = Some tx"
  shows "tx \<in> set (pending_transactions p)" "transaction_id tx = tid"
proof -
  from assms have "tid \<in> transaction_id ` set (pending_transactions p)"
    unfolding pool_inv_def by (metis domI)
  then obtain tx' where t: "tx' \<in> set (pending_transactions p)" "transaction_id tx' = tid" by auto
  with assms(1) have "transaction_map p tid = Some tx'"
    unfolding pool_inv_def list_all_iff by auto
  with assms(2) have "tx' = tx" by simp
  with t show "tx \<in> set (pending_transactions p)" "transaction_id tx = tid" by simp_all
qed

lemma pool_inv_remove:
  assumes "pool_inv p"
  shows "pool_inv (snd (remove_transaction p tid))"
proof (cases "transaction_map p tid")
  case None
  then show ?thesis using assms by (simp add: remove_transaction_def)
next
  case (Some tx)
  note l = pool_inv_lookup[OF assms Some]
  let ?xs = "pending_transactions p"
  have d: "distinct (map transaction_id ?xs)" using assms by (simp add: pool_inv_def)
  then have dx: "distinct ?xs" by (simp add: distinct_map)
  have inj: "inj_on transaction_id (set ?xs)" using d by (simp add: distinct_map)
  have s: "set (remove1 tx ?xs) = set ?xs - {tx}" using dx by simp
  have r: "snd (remove_transaction p tid)
           = p\<lparr>transaction_map := (transaction_map p)(tid := None),
               pending_transactions := remove1 tx ?xs\<rparr>"
    using Some l by (simp add: remove_transaction_def)
  have i: "transaction_id ` (set ?xs - {tx}) = transaction_id ` set ?xs - {tid}"
    using inj l by (auto dest: inj_onD)
  have "dom ((transaction_map p)(tid := None)) = transaction_id ` set (remove1 tx ?xs)"
    using assms s i by (simp add: pool_inv_def)
  moreover have "distinct (map transaction_id (remove1 tx ?xs))"
    using d dx inj s by (simp add: distinct_map inj_on_def)
  moreover have "list_all (\<lambda>t. ((transaction_map p)(tid := None)) (transaction_id t) = Some t)
                   (remove1 tx ?xs)"
    using assms s inj l unfolding pool_inv_def list_all_iff by (auto dest: inj_onD)
  ultimately show ?thesis unfolding r pool_inv_def by simp
qed

lemma length_remove_transaction:
  assumes "pool_inv p" "transaction_map p tid \<noteq> None"
  shows "Suc (length (pending_transactions (snd (remove_transaction p tid))))
           = length (pending_transactions p)"
proof -
  from assms(2) obtain tx where t: "transaction_map p tid = Some tx" by auto
  note l = pool_inv_lookup[OF assms(1) t]
  then have "length (pending_transactions p) > 0" by (auto simp: length_greater_0_conv)
  then show ?thesis using t l by (simp add: remove_transaction_def length_remove1)
qed

lemma length_remove_transaction_le:
  "length (pending_transactions (snd (remove_transaction p tid))) \<le> length (pending_transactions p)"
  by (auto simp: remove_transaction_def length_remove1 split: option.splits)

lemma max_size_remove [simp]: "max_size (snd (remove_transaction p tid)) = max_size p"
  by (simp add: remove_transaction_def split: option.splits)

lemma pool_inv_remove_lowest:
  "pool_inv p \<Longrightarrow> pool_inv (remove_lowest_fee_transaction p)"
  by (simp add: remove_lowest_fee_transaction_def pool_inv_remove)

lemma length_remove_lowest:
  assumes "pool_inv p" "pending_transactions p \<noteq> []"
  shows "Suc (length (pending_transactions (remove_lowest_fee_transaction p)))
           = length (pending_transactions p)"
proof -
  let ?m = "arg_min_list fee (pending_transactions p)"
  have "?m \<in> set (pending_transactions p)" using assms(2) by (rule arg_min_list_in)
  then have "transaction_map p (transaction_id ?m) = Some ?m"
    using assms(1) unfolding pool_inv_def list_all_iff by auto
  then show ?thesis
    using length_remove_transaction[OF assms(1), of "transaction_id ?m"] assms(2)
    by (simp add: remove_lowest_fee_transaction_def)
qed

lemma map_remove_lowest_None:
  "transaction_map p tid = None \<Longrightarrow> transaction_map (remove_lowest_fee_transaction p) tid = None"
  by (auto simp: remove_lowest_fee_transaction_def remove_transaction_def split: option.splits)

lemma pool_inv_append:
  assumes "pool_inv p" "transaction_map p (transaction_id tx) = None"
  shows "pool_inv (p\<lparr>pending_transactions := sort_key (\<lambda>t. - fee t) (pending_transactions p @ [tx]),
                     transaction_map := (transaction_map p)(transaction_id tx \<mapsto> tx)\<rparr>)"
proof -
  let ?xs = "pending_transactions p"
  have n: "transaction_id tx \<notin> transaction_id ` set ?xs"
    using assms unfolding pool_inv_def by (metis domIff)
  have "distinct (map transaction_id (?xs @ [tx]))" using assms(1) n by (simp add: pool_inv_def)
  then have "distinct (map transaction_id (sort_key (\<lambda>t. - fee t) (?xs @ [tx])))"
    by (auto simp: distinct_map)
  moreover have "list_all (\<lambda>t. ((transaction_map p)(transaction_id tx \<mapsto> tx)) (transaction_id t) = Some t)
                   (sort_key (\<lambda>t. - fee t) (?xs @ [tx]))"
    using assms(1) n unfolding pool_inv_def list_all_iff by (auto simp: image_iff)
  moreover have "dom ((transaction_map p)(transaction_id tx \<mapsto> tx))
                  = transaction_id ` set (sort_key (\<lambda>t. - fee t) (?xs @ [tx]))"
    using assms(1) by (simp add: pool_inv_def)
  ultimately show ?thesis by (simp add: pool_inv_def)
qed

lemma pool_add_unfold:
  "snd (pool_add_transaction L p tx) =
     (if \<not> tx_is_valid L tx \<or> transaction_map p (transaction_id tx) \<noteq> None then p
      else (let p1 = (if int (length (pending_transactions p)) \<ge> max_size p
                      then remove_lowest_fee_transaction p else p)
            in p1\<lparr>pending_transactions := sort_key (\<lambda>t. - fee t) (pending_transactions p1 @ [tx]),
                  transaction_map := (transaction_map p1)(transaction_id tx \<mapsto> tx)\<rparr>))"
  by (simp add: pool_add_transaction_def Let_def)

lemma pool_inv_add:
  assumes "pool_inv p"
  shows "pool_inv (snd (pool_add_transaction L p tx))"
  using assms
  by (auto simp: pool_add_unfold Let_def intro!: pool_inv_append pool_inv_remove_lowest
      map_remove_lowest_None)

lemma py_take_drop: "py_take n xs @ py_drop n xs = xs"
  by (simp add: py_take_def py_drop_def)

lemma fold_delete:
  "fold (\<lambda>tx m. if m (transaction_id tx) \<noteq> None then m(transaction_id tx := None) else m) sel m
     = (\<lambda>k. if k \<in> transaction_id ` set sel then None else m k)"
  by (induction sel arbitrary: m) (auto simp: fun_eq_iff)

lemma pool_inv_get:
  assumes "pool_inv p"
  shows "pool_inv (snd (get_transactions_for_block p n))"
proof -
  let ?xs = "pending_transactions p"
  let ?a = "py_take n ?xs" and ?b = "py_drop n ?xs"
  have x: "?xs = ?a @ ?b" by (simp add: py_take_drop)
  have d: "distinct (map transaction_id (?a @ ?b))" using assms x by (simp add: pool_inv_def)
  then have db: "distinct (map transaction_id ?b)"
    and dj: "transaction_id ` set ?a \<inter> transaction_id ` set ?b = {}" by auto
  have sb: "set ?b \<subseteq> set ?xs" by (subst (2) x) auto
  have dm: "dom (transaction_map p) = transaction_id ` set ?a \<union> transaction_id ` set ?b"
    using assms by (subst (asm) pool_inv_def, subst (asm) (1) x) (auto simp: image_Un)
  have "dom (\<lambda>k. if k \<in> transaction_id ` set ?a then None else transaction_map p k)
          = transaction_id ` set ?b"
    using dm dj by (auto simp: dom_def split: if_splits)
  moreover have "list_all (\<lambda>t. (\<lambda>k. if k \<in> transaction_id ` set ?a then None else transaction_map p k)
                               (transaction_id t) = Some t) ?b"
    using assms sb dj unfolding pool_inv_def list_all_iff by auto
  ultimately show ?thesis
    using db unfolding get_transactions_for_block_def Let_def fold_delete pool_inv_def by simp
qed

lemma pool_inv_clear: "pool_inv (pool_clear p)"
  by (simp add: pool_inv_def pool_clear_def)

lemma pool_inv_op: "pool_inv p \<Longrightarrow> pool_inv (apply_pool_op L p op)"
  by (cases op) (simp_all add: pool_inv_add pool_inv_get pool_inv_remove pool_inv_clear)

lemma max_size_op [simp]: "max_size (apply_pool_op L p op) = max_size p"
  by (cases op)
     (auto simp: pool_add_unfold Let_def remove_lowest_fee_transaction_def
        get_transactions_for_block_def pool_clear_def)

lemma length_py_drop: "length (py_drop n xs) \<le> length xs"
  by (simp add: py_drop_def)

lemma size_add:
  assumes "pool_inv p" "0 < max_size p" "int (length (pending_transactions p)) \<le> max_size p"
  shows "int (length (pending_transactions (snd (pool_add_transaction L p tx)))) \<le> max_size p"
proof (cases "int (length (pending_transactions p)) \<ge> max_size p")
  case True
  then have ne: "pending_transactions p \<noteq> []" using assms(2) by auto
  from length_remove_lowest[OF assms(1) ne] assms(3) show ?thesis
    by (auto simp: pool_add_unfold Let_def)
next
  case False
  then show ?thesis using assms(3) by (auto simp: pool_add_unfold Let_def)
qed

lemma size_op:
  assumes "pool_inv p" "0 < max_size p" "int (length (pending_transactions p)) \<le> max_size p"
  shows "int (length (pending_transactions (apply_pool_op L p op))) \<le> max_size p"
proof (cases op)
  case (Add tx)
  then show ?thesis using size_add[OF assms] by simp
next
  case (GetForBlock n)
  then show ?thesis using assms(3) length_py_drop[of n "pending_transactions p"]
    by (simp add: get_transactions_for_block_def Let_def)
next
  case (Remove tid)
  then show ?thesis using assms(3) length_remove_transaction_le[of p tid] by simp
next
  case Clear
  then show ?thesis using assms(2) by (simp add: pool_clear_def)
qed

lemma run_pool_inv:
  assumes "pool_inv p"
  shows "pool_inv (run_pool L p ops)
     \<and> max_size (run_pool L p ops) = max_size p
     \<and> (0 < max_size p \<and> int (length (pending_transactions p)) \<le> max_size p
          \<longrightarrow> int (length (pending_transactions (run_pool L p ops))) \<le> max_size p)"
  using assms
proof (induction ops arbitrary: p)
  case Nil
  then show ?case by (simp add: run_pool_def)
next
  case (Cons op ops)
  have i: "pool_inv (apply_pool_op L p op)" using Cons.prems by (rule pool_inv_op)
  have r: "run_pool L p (op # ops) = run_pool L (apply_pool_op L p op) ops"
    by (simp add: run_pool_def)
  show ?case
    unfolding r using Cons.IH[OF i] size_op[OF Cons.prems, of L op] by auto
qed

text \<open>
  C10, as amended. After any sequence of pool operations from a new pool, the keys of
  \<^verbatim>\<open>transaction_map\<close> are the identifiers of \<^verbatim>\<open>pending_transactions\<close>; and when the
  capacity is at least 1, the pool holds at most \<^verbatim>\<open>max_size\<close> entries. (The
  transactions need not have different identifiers: a second one with an identifier
  that is present is rejected.)
\<close>

theorem pool_map_and_capacity:
  "dom (transaction_map (run_pool L (TransactionPool_init m) ops))
     = transaction_id ` set (pending_transactions (run_pool L (TransactionPool_init m) ops))
   \<and> (0 < m \<longrightarrow>
        int (length (pending_transactions (run_pool L (TransactionPool_init m) ops))) \<le> m)"
  using run_pool_inv[OF pool_inv_init, of L m ops]
  by (simp add: pool_inv_def TransactionPool_init_def)

text \<open>
  C5 (a pool of capacity 3 and the fees 5, 1, 9, 3). After the four valid transactions
  with pairwise different identifiers are added in that order the pool lists the
  transactions of fee 9, 5, 3 in that order and its map has their identifiers as keys;
  \<^verbatim>\<open>get_transactions_for_block(2)\<close> returns those of fee 9 and 5 in that order and
  leaves the one of fee 3, in the list and in the map.
\<close>

theorem pool_capacity_three:
  assumes valid: "tx_is_valid L t5" "tx_is_valid L t1" "tx_is_valid L t9" "tx_is_valid L t3"
    and ids: "distinct (map transaction_id [t5, t1, t9, t3])"
    and fees: "fee t5 = 5" "fee t1 = 1" "fee t9 = 9" "fee t3 = 3"
  shows "pending_transactions (run_pool L (TransactionPool_init 3) [Add t5, Add t1, Add t9, Add t3])
           = [t9, t5, t3]
     \<and> dom (transaction_map (run_pool L (TransactionPool_init 3) [Add t5, Add t1, Add t9, Add t3]))
           = {transaction_id t9, transaction_id t5, transaction_id t3}
     \<and> fst (get_transactions_for_block
              (run_pool L (TransactionPool_init 3) [Add t5, Add t1, Add t9, Add t3]) 2) = [t9, t5]
     \<and> pending_transactions (snd (get_transactions_for_block
              (run_pool L (TransactionPool_init 3) [Add t5, Add t1, Add t9, Add t3]) 2)) = [t3]
     \<and> dom (transaction_map (snd (get_transactions_for_block
              (run_pool L (TransactionPool_init 3) [Add t5, Add t1, Add t9, Add t3]) 2)))
           = {transaction_id t3}"
proof -
  have ne: "t1 \<noteq> t5" "t1 \<noteq> t9" "t5 \<noteq> t9" using ids by auto
  have idn: "transaction_id t1 \<noteq> transaction_id t5" "transaction_id t5 \<noteq> transaction_id t1"
    "transaction_id t9 \<noteq> transaction_id t5" "transaction_id t5 \<noteq> transaction_id t9"
    "transaction_id t9 \<noteq> transaction_id t1" "transaction_id t1 \<noteq> transaction_id t9"
    "transaction_id t3 \<noteq> transaction_id t5" "transaction_id t5 \<noteq> transaction_id t3"
    "transaction_id t3 \<noteq> transaction_id t1" "transaction_id t1 \<noteq> transaction_id t3"
    "transaction_id t3 \<noteq> transaction_id t9" "transaction_id t9 \<noteq> transaction_id t3"
    using ids by auto
  let ?p1 = "\<lparr>max_size = 3, pending_transactions = [t5],
               transaction_map = [transaction_id t5 \<mapsto> t5]\<rparr>"
  let ?p2 = "\<lparr>max_size = 3, pending_transactions = [t5, t1],
               transaction_map = [transaction_id t5 \<mapsto> t5, transaction_id t1 \<mapsto> t1]\<rparr>"
  let ?p3 = "\<lparr>max_size = 3, pending_transactions = [t9, t5, t1],
               transaction_map = [transaction_id t5 \<mapsto> t5, transaction_id t1 \<mapsto> t1,
                                  transaction_id t9 \<mapsto> t9]\<rparr>"
  let ?p4 = "\<lparr>max_size = 3, pending_transactions = [t9, t5, t3],
               transaction_map = ([transaction_id t5 \<mapsto> t5, transaction_id t1 \<mapsto> t1,
                                  transaction_id t9 \<mapsto> t9](transaction_id t1 := None))
                                 (transaction_id t3 \<mapsto> t3)\<rparr>"
  have 1: "snd (pool_add_transaction L (TransactionPool_init 3) t5) = ?p1"
    using valid fees by (simp add: pool_add_transaction_def TransactionPool_init_def Let_def)
  have 2: "snd (pool_add_transaction L ?p1 t1) = ?p2"
    using valid fees idn by (simp add: pool_add_transaction_def Let_def)
  have 3: "snd (pool_add_transaction L ?p2 t9) = ?p3"
    using valid fees idn by (simp add: pool_add_transaction_def Let_def)
  have r: "remove_lowest_fee_transaction ?p3
           = \<lparr>max_size = 3, pending_transactions = [t9, t5],
               transaction_map = [transaction_id t5 \<mapsto> t5, transaction_id t1 \<mapsto> t1,
                                  transaction_id t9 \<mapsto> t9](transaction_id t1 := None)\<rparr>"
    using fees idn ne by (simp add: remove_lowest_fee_transaction_def remove_transaction_def)
  have 4: "snd (pool_add_transaction L ?p3 t3) = ?p4"
    using valid fees idn by (simp add: pool_add_transaction_def Let_def r)
  have run: "run_pool L (TransactionPool_init 3) [Add t5, Add t1, Add t9, Add t3] = ?p4"
    by (simp add: run_pool_def 1 2 3 4)
  have d4: "dom (transaction_map ?p4) = {transaction_id t9, transaction_id t5, transaction_id t3}"
    using idn by auto
  have g: "get_transactions_for_block ?p4 2
           = ([t9, t5], ?p4\<lparr>transaction_map := ((transaction_map ?p4)(transaction_id t9 := None))
                                                  (transaction_id t5 := None),
                             pending_transactions := [t3]\<rparr>)"
    using idn by (simp add: get_transactions_for_block_def py_take_def py_drop_def Let_def)
  have d5: "dom (((transaction_map ?p4)(transaction_id t9 := None))(transaction_id t5 := None))
            = {transaction_id t3}"
    using idn by auto
  show ?thesis unfolding run g using d4 d5 by simp
qed

lemma fee_tx_hyps:
  "tx_is_valid demo_lib (fee_tx 5) \<and> tx_is_valid demo_lib (fee_tx 1)
   \<and> tx_is_valid demo_lib (fee_tx 9) \<and> tx_is_valid demo_lib (fee_tx 3)
   \<and> distinct (map transaction_id [fee_tx 5, fee_tx 1, fee_tx 9, fee_tx 3])
   \<and> fee (fee_tx 5) = 5 \<and> fee (fee_tx 1) = 1 \<and> fee (fee_tx 9) = 9 \<and> fee (fee_tx 3) = 3"
  by code_simp

text \<open>Four unsigned transactions from the demo library.\<close>

theorem pool_capacity_three_witness:
  "pending_transactions
     (run_pool demo_lib (TransactionPool_init 3)
        [Add (fee_tx 5), Add (fee_tx 1), Add (fee_tx 9), Add (fee_tx 3)])
     = [fee_tx 9, fee_tx 5, fee_tx 3]
   \<and> fst (get_transactions_for_block
            (run_pool demo_lib (TransactionPool_init 3)
               [Add (fee_tx 5), Add (fee_tx 1), Add (fee_tx 9), Add (fee_tx 3)]) 2)
       = [fee_tx 9, fee_tx 5]
   \<and> pending_transactions (snd (get_transactions_for_block
            (run_pool demo_lib (TransactionPool_init 3)
               [Add (fee_tx 5), Add (fee_tx 1), Add (fee_tx 9), Add (fee_tx 3)]) 2))
       = [fee_tx 3]"
  using pool_capacity_three[of demo_lib "fee_tx 5" "fee_tx 1" "fee_tx 9" "fee_tx 3"] fee_tx_hyps
  by blast

text \<open>
  C10 as stated fails for a pool of capacity 0: there is nothing to evict, and the
  transaction added is a first entry.
\<close>

theorem pool_capacity_zero_counterexample:
  "max_size (run_pool demo_lib (TransactionPool_init 0) [Add (fee_tx 5)]) = 0
   \<and> length (pending_transactions (run_pool demo_lib (TransactionPool_init 0) [Add (fee_tx 5)])) = 1"
  by code_simp

lemma demo_ops_run:
  "map fee (pending_transactions (run_pool demo_lib (TransactionPool_init 2) (take 3 demo_ops))) = [9, 5]
   \<and> map fee (pending_transactions (run_pool demo_lib (TransactionPool_init 2) (take 6 demo_ops))) = [3]"
  by code_simp

text \<open>A pool of capacity 2 after three additions.\<close>

theorem pool_map_and_capacity_witness:
  "(0::int) < 2
   \<and> dom (transaction_map (run_pool demo_lib (TransactionPool_init 2) (take 3 demo_ops)))
     = transaction_id ` set (pending_transactions (run_pool demo_lib (TransactionPool_init 2) (take 3 demo_ops)))
   \<and> int (length (pending_transactions (run_pool demo_lib (TransactionPool_init 2) (take 3 demo_ops)))) \<le> 2
   \<and> map fee (pending_transactions (run_pool demo_lib (TransactionPool_init 2) (take 3 demo_ops))) = [9, 5]"
  using pool_map_and_capacity[of demo_lib 2 "take 3 demo_ops"] demo_ops_run by simp

subsection \<open>Replicated put\<close>

lemma init_fields:
  "peer_nodes (DistributedStorage_init st [p1, p2] 2 cl) = [p1, p2]"
  "replication_factor (DistributedStorage_init st [p1, p2] 2 cl) = 2"
  "consistency_level (DistributedStorage_init st [p1, p2] 2 cl) = cl"
  "local_storage (DistributedStorage_init st [p1, p2] 2 cl) = st"
  "map_of (node_health (DistributedStorage_init st [p1, p2] 2 cl)) p1 = Some True"
  "map_of (node_health (DistributedStorage_init st [p1, p2] 2 cl)) p2 = Some True"
  by (simp_all add: DistributedStorage_init_def update_conv')

lemma select_two_peers:
  assumes "peer_nodes ds = [p1, p2]" "replication_factor ds = 2"
    "map_of (node_health ds) p1 = Some True" "map_of (node_health ds) p2 = Some True"
  shows "select_nodes_for_key N ds key = [[p1, p2] ! (md5_int N key mod 2)]"
  using assms by (simp add: select_nodes_for_key_def Let_def numeral_2_eq_2)

lemma replicate_one:
  assumes "select_nodes_for_key N ds key = [node]"
  shows "fst (replicate_to_peers N ds key v) = [(node, peer_acks N node key v)]"
  using assms
  by (auto simp: replicate_to_peers_def replicate_step_def check_node_health_def Let_def
      peer_acks_def split: response.splits bool.splits)

text \<open>
  C4 (put under \<^verbatim>\<open>quorum\<close> with two configured, healthy peers and replication factor
  2). One peer is selected, the one at the index the key's hash gives; the dictionary
  of replication results has that one entry, so the required number of peer
  acknowledgements is \<open>1 div 2 + 1 = 1\<close>; and the put reports success exactly when the
  local write succeeds and the selected peer acknowledges (two acknowledgements in
  total), that is, exactly when the local write succeeds and the acknowledgements of
  the selected peers reach the threshold.
\<close>

theorem quorum_put_two_peers:
  "select_nodes_for_key N (DistributedStorage_init st [p1, p2] 2 ''quorum'') key
     = [[p1, p2] ! (md5_int N key mod 2)]
   \<and> fst (replicate_to_peers N (DistributedStorage_init st [p1, p2] 2 ''quorum'') key v)
     = [([p1, p2] ! (md5_int N key mod 2),
         peer_acks N ([p1, p2] ! (md5_int N key mod 2)) key v)]
   \<and> required_success ''quorum''
        (fst (replicate_to_peers N (DistributedStorage_init st [p1, p2] 2 ''quorum'') key v)) = 1
   \<and> successful_replications
        (fst (replicate_to_peers N (DistributedStorage_init st [p1, p2] 2 ''quorum'') key v))
     = (if peer_acks N ([p1, p2] ! (md5_int N key mod 2)) key v then 1 else 0)
   \<and> fst (distributed_put N (DistributedStorage_init st [p1, p2] 2 ''quorum'') key v)
     = (fst (sqlite_put st key v) \<and> peer_acks N ([p1, p2] ! (md5_int N key mod 2)) key v)
   \<and> fst (distributed_put N (DistributedStorage_init st [p1, p2] 2 ''quorum'') key v)
     = (fst (sqlite_put st key v)
        \<and> required_success ''quorum''
             (fst (replicate_to_peers N (DistributedStorage_init st [p1, p2] 2 ''quorum'') key v))
           \<le> successful_replications
               (fst (replicate_to_peers N (DistributedStorage_init st [p1, p2] 2 ''quorum'') key v)))"
proof -
  let ?ds = "DistributedStorage_init st [p1, p2] 2 ''quorum''"
  let ?node = "[p1, p2] ! (md5_int N key mod 2)"
  have sel: "select_nodes_for_key N (?ds\<lparr>local_storage := s\<rparr>) key = [?node]" for s
    by (rule select_two_peers) (simp_all add: init_fields)
  from sel[of st] have sel0: "select_nodes_for_key N ?ds key = [?node]"
    by (simp add: DistributedStorage_init_def)
  have rep: "fst (replicate_to_peers N (?ds\<lparr>local_storage := s\<rparr>) key v)
               = [(?node, peer_acks N ?node key v)]" for s
    using sel[of s] by (rule replicate_one)
  from rep[of st] have rep0: "fst (replicate_to_peers N ?ds key v) = [(?node, peer_acks N ?node key v)]"
    by (simp add: DistributedStorage_init_def)
  obtain ok st1 where sp: "sqlite_put st key v = (ok, st1)" by (cases "sqlite_put st key v")
  obtain res ds2 where rp: "replicate_to_peers N (?ds\<lparr>local_storage := st1\<rparr>) key v = (res, ds2)"
    by (cases "replicate_to_peers N (?ds\<lparr>local_storage := st1\<rparr>) key v")
  with rep[of st1] have res: "res = [(?node, peer_acks N ?node key v)]" by simp
  have put: "fst (distributed_put N ?ds key v)
               = (fst (sqlite_put st key v) \<and> peer_acks N ?node key v)"
    by (simp add: distributed_put_def init_fields Let_def sp rp res successful_replications_def
        required_success_def)
  show ?thesis
    unfolding sel0 rep0 put
    by (simp add: required_success_def successful_replications_def)
qed

text \<open>The second peer times out: a key routed to it fails, a key routed to the first succeeds.\<close>

lemma quorum_put_peer_timeout:
  "select_nodes_for_key demo_net demo_cluster ''k'' = [''http://node2:5000'']
   \<and> \<not> fst (distributed_put demo_net demo_cluster ''k'' (Bytes ''v''))
   \<and> map_of (key_value (local_storage (snd (distributed_put demo_net demo_cluster ''k'' (Bytes ''v''))))) ''k''
       = Some (Bytes ''v'')
   \<and> select_nodes_for_key demo_net demo_cluster ''kk'' = [''http://node1:5000'']
   \<and> fst (distributed_put demo_net demo_cluster ''kk'' (Bytes ''v''))"
  by code_simp

subsection \<open>Export and import\<close>

lemma store_blocks_frame [simp]:
  "account_balances (fold (\<lambda>b s. snd (store_block s b)) bs st) = account_balances st"
  "failing (fold (\<lambda>b s. snd (store_block s b)) bs st) = failing st"
  "key_value (fold (\<lambda>b s. snd (store_block s b)) bs st) = key_value st"
  by (induction bs arbitrary: st) simp_all
























end
